theory Spec2Isabelle
  imports Complex_Main "HOL-Library.Word" "HOL-Library.Log_Nat"
begin

section \<open>Units and their display strings (namespace kmx of base.hpp)\<close>

text \<open>
  \<^verbatim>\<open>enum class unit : std::uint8_t\<close> has a fixed underlying type, so an object of the
  enumeration can hold every 8-bit ordinal, not only the seven enumerators. A unit is
  therefore modelled by its ordinal.
\<close>

type_synonym unit = "8 word"

definition celsius :: unit where "celsius = 0"
definition percent :: unit where "percent = 1"
definition lux :: unit where "lux = 2"
definition pascal :: unit where "pascal = 3"
definition volt :: unit where "volt = 4"
definition ampere :: unit where "ampere = 5"
definition meter_per_second :: unit where "meter_per_second = 6"

text \<open>
  The table of \<^verbatim>\<open>text_of\<close>. The source file is UTF-8, so the degree sign of the first
  entry is the two bytes C2 B0.
\<close>

definition items :: "string list" where
  "items = [[CHR 0xC2, CHR 0xB0, CHR ''C''], ''%'', ''lx'', ''Pa'', ''V'', ''A'', ''m/s'']"

definition text_of :: "unit \<Rightarrow> string" where
  "text_of u = (let index = unat u in if index < length items then items ! index else [])"

section \<open>Floating point: the input type\<close>

text \<open>
  A binary floating-point format is given by its precision \<open>p\<close> (significand bits,
  hidden bit included) and its largest exponent; \<^verbatim>\<open>float\<close> is binary32. A value is a
  finite rational, an infinity (\<open>Infinity True\<close> is the positive one) or NaN. The two
  zeros are identified: the code compares, multiplies and rounds them alike and never
  divides by one.
\<close>

record float_format =
  precision :: nat
  emax :: int

definition binary32 :: float_format where
  "binary32 = \<lparr>precision = 24, emax = 127\<rparr>"

definition binary64 :: float_format where
  "binary64 = \<lparr>precision = 53, emax = 1023\<rparr>"

definition emin :: "float_format \<Rightarrow> int" where
  "emin f = 1 - emax f"

text \<open>The formats of the types that satisfy \<^verbatim>\<open>std::floating_point\<close>: at least two
  significand bits and a positive largest exponent.\<close>

definition floating_point :: "float_format \<Rightarrow> bool" where
  "floating_point f = (2 \<le> precision f \<and> 1 \<le> emax f)"

datatype fp = Finite rat | Infinity bool | NaN

text \<open>The binade of a non-zero rational: \<open>2 powi expo x \<le> \<bar>x\<bar> < 2 powi (expo x + 1)\<close>.\<close>

definition expo :: "rat \<Rightarrow> int" where
  "expo x = (let (a, b) = quotient_of \<bar>x\<bar>; d = bitlen a - bitlen b
             in if 2 powi d \<le> \<bar>x\<bar> then d else d - 1)"

definition round_half_even :: "rat \<Rightarrow> int" where
  "round_half_even x =
     (let n = \<lfloor>x\<rfloor>; d = x - of_int n
      in if d < 1 / 2 then n else if 1 / 2 < d then n + 1 else if even n then n else n + 1)"

text \<open>The spacing of the format's values around \<open>x\<close> (subnormals share the spacing of
  the smallest binade).\<close>

definition ulp :: "float_format \<Rightarrow> rat \<Rightarrow> rat" where
  "ulp f x = 2 powi (max (expo x) (emin f) - int (precision f) + 1)"

text \<open>Round to nearest, ties to even, with the exponent unbounded above.\<close>

definition round_to :: "float_format \<Rightarrow> rat \<Rightarrow> rat" where
  "round_to f x = (if x = 0 then 0 else of_int (round_half_even (x / ulp f x)) * ulp f x)"

definition max_finite :: "float_format \<Rightarrow> rat" where
  "max_finite f = (2 ^ precision f - 1) * 2 powi (emax f - int (precision f) + 1)"

text \<open>The result of an arithmetic operation whose exact value is \<open>x\<close>: rounded, and an
  infinity when the rounded value exceeds the largest finite one.\<close>

definition rnd :: "float_format \<Rightarrow> rat \<Rightarrow> fp" where
  "rnd f x = (let r = round_to f x in if max_finite f < \<bar>r\<bar> then Infinity (0 < r) else Finite r)"

fun fmul :: "float_format \<Rightarrow> fp \<Rightarrow> fp \<Rightarrow> fp" where
  "fmul f (Finite x) (Finite y) = rnd f (x * y)"
| "fmul f (Finite x) (Infinity s) = (if x = 0 then NaN else Infinity (s = (0 < x)))"
| "fmul f (Infinity s) (Finite y) = (if y = 0 then NaN else Infinity (s = (0 < y)))"
| "fmul f (Infinity s) (Infinity s') = Infinity (s = s')"
| "fmul f NaN _ = NaN"
| "fmul f _ NaN = NaN"

text \<open>A zero divisor is taken as the positive zero.\<close>

fun fdiv :: "float_format \<Rightarrow> fp \<Rightarrow> fp \<Rightarrow> fp" where
  "fdiv f (Finite x) (Finite y) =
     (if y = 0 then (if x = 0 then NaN else Infinity (0 < x)) else rnd f (x / y))"
| "fdiv f (Finite x) (Infinity s) = Finite 0"
| "fdiv f (Infinity s) (Finite y) = Infinity (s = (0 \<le> y))"
| "fdiv f (Infinity s) (Infinity s') = NaN"
| "fdiv f NaN _ = NaN"
| "fdiv f _ NaN = NaN"

fun fsub :: "float_format \<Rightarrow> fp \<Rightarrow> fp \<Rightarrow> fp" where
  "fsub f (Finite x) (Finite y) = rnd f (x - y)"
| "fsub f (Finite x) (Infinity s) = Infinity (\<not> s)"
| "fsub f (Infinity s) (Finite y) = Infinity s"
| "fsub f (Infinity s) (Infinity s') = (if s = s' then NaN else Infinity s)"
| "fsub f NaN _ = NaN"
| "fsub f _ NaN = NaN"

fun fabs :: "fp \<Rightarrow> fp" where
  "fabs (Finite x) = Finite \<bar>x\<bar>"
| "fabs (Infinity s) = Infinity True"
| "fabs NaN = NaN"

text \<open>The operator \<^verbatim>\<open><\<close>: every comparison with NaN is false.\<close>

fun fless :: "fp \<Rightarrow> fp \<Rightarrow> bool" where
  "fless (Finite x) (Finite y) = (x < y)"
| "fless (Finite x) (Infinity s) = s"
| "fless (Infinity s) (Finite y) = (\<not> s)"
| "fless (Infinity s) (Infinity s') = (\<not> s \<and> s')"
| "fless NaN _ = False"
| "fless _ NaN = False"

definition fle :: "fp \<Rightarrow> fp \<Rightarrow> bool" where
  "fle a b = (a \<noteq> NaN \<and> b \<noteq> NaN \<and> \<not> fless b a)"

text \<open>\<^verbatim>\<open>std::round\<close>: to the nearest integer, halfway cases away from zero.\<close>

definition c_round :: "rat \<Rightarrow> int" where
  "c_round x = (if 0 \<le> x then \<lfloor>x + 1 / 2\<rfloor> else - \<lfloor>- x + 1 / 2\<rfloor>)"

fun fround :: "fp \<Rightarrow> fp" where
  "fround (Finite x) = Finite (of_int (c_round x))"
| "fround (Infinity s) = Infinity s"
| "fround NaN = NaN"

text \<open>\<^verbatim>\<open>std::clamp(v, lo, hi)\<close>, as the library writes it with \<^verbatim>\<open><\<close>: both
  comparisons are false for NaN, which is returned as it came.\<close>

definition clamp :: "fp \<Rightarrow> fp \<Rightarrow> fp \<Rightarrow> fp" where
  "clamp v lo hi = (if fless v lo then lo else if fless hi v then hi else v)"

section \<open>Integers: the storage type\<close>

text \<open>
  A storage type is an integer type of some width, signed or not. Its values are
  modelled as integers of its range; the code only compares and converts them.
\<close>

record int_type =
  is_signed :: bool
  width :: nat

definition int16_t :: int_type where "int16_t = \<lparr>is_signed = True, width = 16\<rparr>"
definition uint16_t :: int_type where "uint16_t = \<lparr>is_signed = False, width = 16\<rparr>"
definition uint8_t :: int_type where "uint8_t = \<lparr>is_signed = False, width = 8\<rparr>"

text \<open>The types that satisfy \<^verbatim>\<open>std::integral\<close> have at least one bit.\<close>

definition integral :: "int_type \<Rightarrow> bool" where
  "integral s = (1 \<le> width s)"

definition lowest :: "int_type \<Rightarrow> int" where
  "lowest s = (if is_signed s then - (2 ^ (width s - 1)) else 0)"

definition highest :: "int_type \<Rightarrow> int" where
  "highest s = (if is_signed s then 2 ^ (width s - 1) - 1 else 2 ^ width s - 1)"

definition trunc :: "rat \<Rightarrow> int" where
  "trunc x = (if 0 \<le> x then \<lfloor>x\<rfloor> else \<lceil>x\<rceil>)"

text \<open>
  \<^verbatim>\<open>static_cast<storage_type>(x)\<close> from the input type truncates; the behaviour is
  undefined (\<open>None\<close>) when the truncated value is not a value of the storage type, and
  so for an infinity and for NaN.
\<close>

fun to_storage :: "int_type \<Rightarrow> fp \<Rightarrow> int option" where
  "to_storage s (Finite x) =
     (if lowest s \<le> trunc x \<and> trunc x \<le> highest s then Some (trunc x) else None)"
| "to_storage s (Infinity b) = None"
| "to_storage s NaN = None"

text \<open>\<^verbatim>\<open>static_cast<input_type>(k)\<close> from the storage type rounds to the format.\<close>

definition of_storage :: "float_format \<Rightarrow> int \<Rightarrow> fp" where
  "of_storage f k = rnd f (of_int k)"

section \<open>Traits and the class base\<close>

record traits =
  storage_type :: int_type
  input_type :: float_format
  min_value :: fp
  max_value :: fp
  resolution :: fp
  unit :: unit

text \<open>The object: its only member is \<^verbatim>\<open>std::optional<storage_type> scaled_value_\<close>.\<close>

record base =
  scaled_value :: "int option"

definition scale_numerator :: "traits \<Rightarrow> fp" where
  "scale_numerator t = rnd (input_type t) 1"

definition scale_factor :: "traits \<Rightarrow> fp" where
  "scale_factor t = fdiv (input_type t) (scale_numerator t) (resolution t)"

text \<open>\<open>None\<close>: the conversion to the storage type has undefined behaviour.\<close>

definition convert_to_scaled :: "traits \<Rightarrow> fp \<Rightarrow> int option" where
  "convert_to_scaled t val =
     (let scaled_float = fmul (input_type t) val (scale_factor t)
      in to_storage (storage_type t) (fround scaled_float))"

definition convert_to_physical :: "traits \<Rightarrow> int \<Rightarrow> fp" where
  "convert_to_physical t val =
     (let scaled_val_as_input = of_storage (input_type t) val
      in fdiv (input_type t) scaled_val_as_input (scale_factor t))"

definition static_min_scaled_value :: "traits \<Rightarrow> int option" where
  "static_min_scaled_value t = convert_to_scaled t (min_value t)"

definition static_max_scaled_value :: "traits \<Rightarrow> int option" where
  "static_max_scaled_value t = convert_to_scaled t (max_value t)"

text \<open>
  An instantiation compiles when the template arguments satisfy the two concepts, the
  two static assertions of \<^verbatim>\<open>traits\<close> hold and the initialisers of the three
  \<^verbatim>\<open>static constexpr\<close> members of \<^verbatim>\<open>base\<close> are constant expressions: the scale factor
  is a finite number and neither conversion of a bound has undefined behaviour.
\<close>

definition is_finite :: "fp \<Rightarrow> bool" where
  "is_finite a = (case a of Finite x \<Rightarrow> True | _ \<Rightarrow> False)"

definition well_formed :: "traits \<Rightarrow> bool" where
  "well_formed t =
     (integral (storage_type t) \<and> floating_point (input_type t) \<and>
      fless (Finite 0) (resolution t) \<and> fle (min_value t) (max_value t) \<and>
      is_finite (scale_factor t) \<and>
      static_min_scaled_value t \<noteq> None \<and> static_max_scaled_value t \<noteq> None)"

text \<open>The default constructor and the constructor from a physical value.\<close>

definition base_default :: base where
  "base_default = \<lparr>scaled_value = None\<rparr>"

definition base_init :: "traits \<Rightarrow> fp \<Rightarrow> base option" where
  "base_init t initial_value =
     (case convert_to_scaled t (clamp initial_value (min_value t) (max_value t)) of
        None \<Rightarrow> None
      | Some k \<Rightarrow> Some \<lparr>scaled_value = Some k\<rparr>)"

definition is_defined :: "base \<Rightarrow> bool" where
  "is_defined b = (scaled_value b \<noteq> None)"

definition "value" :: "traits \<Rightarrow> base \<Rightarrow> fp option" where
  "value t b = (case scaled_value b of None \<Rightarrow> None | Some k \<Rightarrow> Some (convert_to_physical t k))"

definition epsilon :: "float_format \<Rightarrow> rat" where
  "epsilon f = 2 powi (1 - int (precision f))"

definition epsilon_limit :: "traits \<Rightarrow> fp" where
  "epsilon_limit t = fmul (input_type t) (Finite (epsilon (input_type t))) (rnd (input_type t) 100)"

definition set_value :: "traits \<Rightarrow> fp \<Rightarrow> base \<Rightarrow> (bool \<times> base) option" where
  "set_value t new_value b =
     (let clamped_value = clamp new_value (min_value t) (max_value t)
      in case convert_to_scaled t clamped_value of
           None \<Rightarrow> None
         | Some k \<Rightarrow>
             (let difference = fabs (fsub (input_type t) new_value clamped_value)
              in Some (fless difference (epsilon_limit t), b\<lparr>scaled_value := Some k\<rparr>)))"

definition raw_scaled_value :: "base \<Rightarrow> int option" where
  "raw_scaled_value b = scaled_value b"

definition set_raw_scaled_value :: "traits \<Rightarrow> int \<Rightarrow> base \<Rightarrow> (bool \<times> base) option" where
  "set_raw_scaled_value t raw_val b =
     (case (static_min_scaled_value t, static_max_scaled_value t) of
        (Some lo, Some hi) \<Rightarrow>
          Some (if raw_val < lo \<or> raw_val > hi then (False, b)
                else (True, b\<lparr>scaled_value := Some raw_val\<rparr>))
      | _ \<Rightarrow> None)"

definition clear :: "base \<Rightarrow> base" where
  "clear b = b\<lparr>scaled_value := None\<rparr>"

section \<open>The concrete sensors\<close>

definition temperature_traits :: traits where
  "temperature_traits =
     \<lparr>storage_type = int16_t, input_type = binary32,
      min_value = rnd binary32 (- 50), max_value = rnd binary32 50,
      resolution = rnd binary32 (1 / 10), unit = celsius\<rparr>"

definition light_intensity_traits :: traits where
  "light_intensity_traits =
     \<lparr>storage_type = uint16_t, input_type = binary32,
      min_value = rnd binary32 0, max_value = rnd binary32 65535,
      resolution = rnd binary32 1, unit = lux\<rparr>"

definition humidity_traits :: traits where
  "humidity_traits =
     \<lparr>storage_type = uint8_t, input_type = binary32,
      min_value = rnd binary32 0, max_value = rnd binary32 100,
      resolution = rnd binary32 (1 / 2), unit = percent\<rparr>"



section \<open>The unit string of an instantiation\<close>

text \<open>
  \<^verbatim>\<open>unit_string()\<close> returns \<^verbatim>\<open>to_string_view(traits_type::unit)\<close>. The argument is a
  \<^verbatim>\<open>kmx::unit\<close>, so the name is looked up among the functions that the repository
  declares for a unit; base.hpp declares \<^verbatim>\<open>text_of\<close> and no other. A call whose name
  has no declaration is ill-formed: \<open>None\<close>.
\<close>

definition declared_for_unit :: "string \<Rightarrow> (unit \<Rightarrow> string) option" where
  "declared_for_unit name = (if name = ''text_of'' then Some text_of else None)"

definition unit_string :: "traits \<Rightarrow> string option" where
  "unit_string t =
     (case declared_for_unit ''to_string_view'' of
        None \<Rightarrow> None
      | Some to_string_view \<Rightarrow> Some (to_string_view (unit t)))"

section \<open>The state invariant\<close>

text \<open>A defined object holds an integer between the scaled encodings of the bounds.\<close>

definition invariant :: "traits \<Rightarrow> base \<Rightarrow> bool" where
  "invariant t b =
     (case scaled_value b of
        None \<Rightarrow> True
      | Some k \<Rightarrow>
          (case (static_min_scaled_value t, static_max_scaled_value t) of
             (Some lo, Some hi) \<Rightarrow> lo \<le> k \<and> k \<le> hi
           | _ \<Rightarrow> False))"

section \<open>Rounding: binades, nearest integers, monotonicity\<close>

lemma bitlen_powi_bounds:
  assumes "0 < a"
  shows "(2::rat) powi (bitlen a - 1) \<le> of_int a" and "(of_int a :: rat) < 2 powi bitlen a"
proof -
  have ge: "1 \<le> bitlen a"
    using assms bitlen_eq_zero_iff [of a] bitlen_nonneg [of a] by linarith
  have "(2::int) ^ nat (bitlen a - 1) \<le> a" and "a < 2 ^ nat (bitlen a)"
    using bitlen_bounds [OF assms] by simp_all
  then have "(of_int (2 ^ nat (bitlen a - 1)) :: rat) \<le> of_int a"
    and "(of_int a :: rat) < of_int (2 ^ nat (bitlen a))"
    by (simp_all only: of_int_le_iff of_int_less_iff)
  then show "(2::rat) powi (bitlen a - 1) \<le> of_int a" and "(of_int a :: rat) < 2 powi bitlen a"
    using ge by (simp_all add: power_int_nonneg_exp)
qed

lemma expo_bounds:
  assumes "x \<noteq> 0"
  shows "2 powi expo x \<le> \<bar>x\<bar>" and "\<bar>x\<bar> < 2 powi (expo x + 1)"
proof -
  obtain a b where q: "quotient_of \<bar>x\<bar> = (a, b)"
    by force
  have b: "0 < b"
    using quotient_of_denom_pos [OF q] .
  have x: "\<bar>x\<bar> = of_int a / of_int b"
    using quotient_of_div [OF q] .
  have a: "0 < a"
  proof -
    have "0 < \<bar>x\<bar>" using assms by simp
    then have "0 < (of_int a :: rat) / of_int b" using x by simp
    then have "0 < (of_int a :: rat)" using b by (simp add: zero_less_divide_iff)
    then show ?thesis by simp
  qed
  define d where "d = bitlen a - bitlen b"
  have e: "expo x = (if 2 powi d \<le> \<bar>x\<bar> then d else d - 1)"
    by (simp add: expo_def q d_def Let_def)
  have bpos: "0 < (of_int b :: rat)" using b by simp
  have up: "\<bar>x\<bar> < 2 powi (d + 1)"
  proof -
    have "(of_int a :: rat) < 2 powi bitlen a"
      using bitlen_powi_bounds(2) [OF a] .
    also have "\<dots> = 2 powi (d + 1) * 2 powi (bitlen b - 1)"
      by (simp add: d_def power_int_add [symmetric])
    also have "\<dots> \<le> 2 powi (d + 1) * of_int b"
      using bitlen_powi_bounds(1) [OF b] by (simp add: mult_left_mono)
    finally show ?thesis
      using bpos by (simp add: x field_simps)
  qed
  have lo: "2 powi (d - 1) \<le> \<bar>x\<bar>"
  proof -
    have "2 powi (d - 1) * (of_int b :: rat) \<le> 2 powi (d - 1) * 2 powi bitlen b"
      using bitlen_powi_bounds(2) [OF b] by (simp add: mult_left_mono)
    also have "\<dots> = 2 powi (bitlen a - 1)"
      by (simp add: d_def power_int_add [symmetric])
    also have "\<dots> \<le> of_int a"
      using bitlen_powi_bounds(1) [OF a] .
    finally show ?thesis
      using bpos by (simp add: x field_simps)
  qed
  show "2 powi expo x \<le> \<bar>x\<bar>"
    using lo by (simp add: e)
  show "\<bar>x\<bar> < 2 powi (expo x + 1)"
    using up by (auto simp add: e)
qed

lemma rhe_of_int: "round_half_even (of_int n) = n"
  by (simp add: round_half_even_def)

lemma rhe_bounds: "\<lfloor>x\<rfloor> \<le> round_half_even x" "round_half_even x \<le> \<lfloor>x\<rfloor> + 1"
  by (simp_all add: round_half_even_def Let_def)

lemma rhe_mono:
  assumes "x \<le> y"
  shows "round_half_even x \<le> round_half_even y"
proof (cases "\<lfloor>x\<rfloor> = \<lfloor>y\<rfloor>")
  case True
  then show ?thesis
    using assms by (auto simp add: round_half_even_def Let_def)
next
  case False
  then have "\<lfloor>x\<rfloor> + 1 \<le> \<lfloor>y\<rfloor>"
    using floor_mono [OF assms] by linarith
  then show ?thesis
    using rhe_bounds(2) [of x] rhe_bounds(1) [of y] by linarith
qed

lemma rhe_error: "\<bar>of_int (round_half_even x) - x\<bar> \<le> 1 / 2"
proof -
  have "of_int \<lfloor>x\<rfloor> \<le> x" "x < of_int \<lfloor>x\<rfloor> + 1"
    by linarith+
  then show ?thesis
    by (auto simp add: round_half_even_def Let_def abs_le_iff)
qed

lemma floor_half: "\<lfloor>1 / 2 :: rat\<rfloor> = 0"
  by (simp add: floor_eq_iff)

lemma c_round_of_int: "c_round (of_int n) = n"
  by (simp add: c_round_def floor_half)

lemma c_round_mono:
  assumes "x \<le> y"
  shows "c_round x \<le> c_round y"
proof -
  consider "0 \<le> x" | "x < 0" "0 \<le> y" | "y < 0"
    by linarith
  then show ?thesis
  proof cases
    case 1
    have "\<lfloor>x + 1 / 2\<rfloor> \<le> \<lfloor>y + 1 / 2\<rfloor>"
      using assms by (simp add: floor_mono)
    then show ?thesis
      using 1 assms by (simp add: c_round_def)
  next
    case 2
    have "0 \<le> \<lfloor>- x + 1 / 2\<rfloor>"
      using 2(1) by (simp only: zero_le_floor)
    moreover have "0 \<le> \<lfloor>y + 1 / 2\<rfloor>"
      using 2(2) by (simp only: zero_le_floor)
    moreover have "c_round x = - \<lfloor>- x + 1 / 2\<rfloor>" "c_round y = \<lfloor>y + 1 / 2\<rfloor>"
      using 2 by (simp_all add: c_round_def)
    ultimately show ?thesis
      by linarith
  next
    case 3
    have "\<lfloor>- y + 1 / 2\<rfloor> \<le> \<lfloor>- x + 1 / 2\<rfloor>"
      using assms by (simp add: floor_mono)
    then show ?thesis
      using 3 assms by (simp add: c_round_def)
  qed
qed

lemma c_round_error: "\<bar>of_int (c_round x) - x\<bar> \<le> 1 / 2"
proof (cases "0 \<le> x")
  case True
  have "of_int \<lfloor>x + 1 / 2\<rfloor> \<le> x + 1 / 2" "x + 1 / 2 < of_int \<lfloor>x + 1 / 2\<rfloor> + 1"
    by linarith+
  then have "\<bar>of_int \<lfloor>x + 1 / 2\<rfloor> - x\<bar> \<le> 1 / 2"
    by linarith
  then show ?thesis
    using True by (simp only: c_round_def if_True)
next
  case False
  have "of_int \<lfloor>- x + 1 / 2\<rfloor> \<le> - x + 1 / 2" "- x + 1 / 2 < of_int \<lfloor>- x + 1 / 2\<rfloor> + 1"
    by linarith+
  then have "\<bar>of_int (- \<lfloor>- x + 1 / 2\<rfloor>) - x\<bar> \<le> 1 / 2"
    by (simp only: of_int_minus)
  then show ?thesis
    using False by (simp only: c_round_def if_False)
qed

lemma trunc_of_int: "trunc (of_int n) = n"
  by (simp add: trunc_def)

lemma rhe_minus: "round_half_even (- x) = - round_half_even x"
proof (cases "x = of_int \<lfloor>x\<rfloor>")
  case True
  then obtain n where "x = of_int n" ..
  then have "- x = of_int (- n)" by simp
  then show ?thesis
    using \<open>x = of_int n\<close> by (simp only: rhe_of_int)
next
  case False
  then have "\<lceil>x\<rceil> = \<lfloor>x\<rfloor> + 1"
    by (simp add: ceiling_altdef)
  then have fl: "\<lfloor>- x\<rfloor> = - \<lfloor>x\<rfloor> - 1"
    by (simp add: ceiling_def)
  have "of_int \<lfloor>x\<rfloor> < x" "x < of_int \<lfloor>x\<rfloor> + 1"
    using False by linarith+
  then show ?thesis
    by (auto simp add: round_half_even_def Let_def fl)
qed

lemma ulp_pos: "0 < ulp f x"
  by (simp add: ulp_def)

lemma ulp_minus: "ulp f (- x) = ulp f x"
  by (simp add: ulp_def expo_def)

lemma round_to_minus: "round_to f (- x) = - round_to f x"
  by (simp add: round_to_def ulp_minus rhe_minus)

lemma two_powi_less_cancel:
  assumes "(2::rat) powi m < 2 powi n"
  shows "m < n"
proof (rule ccontr)
  assume "\<not> m < n"
  then have "(2::rat) powi n \<le> 2 powi m"
    by (intro power_int_increasing) simp_all
  then show False using assms by simp
qed

lemma expo_unique:
  assumes "2 powi e \<le> \<bar>x\<bar>" "\<bar>x\<bar> < 2 powi (e + 1)"
  shows "expo x = e"
proof -
  have nz: "x \<noteq> 0"
  proof
    assume "x = 0"
    then have "(2::rat) powi e \<le> 0" using assms(1) by simp
    moreover have "0 < (2::rat) powi e" by simp
    ultimately show False by linarith
  qed
  have "(2::rat) powi e < 2 powi (expo x + 1)"
    using assms(1) expo_bounds(2) [OF nz] by linarith
  then have 1: "e < expo x + 1"
    by (rule two_powi_less_cancel)
  have "(2::rat) powi expo x < 2 powi (e + 1)"
    using assms(2) expo_bounds(1) [OF nz] by linarith
  then have 2: "expo x < e + 1"
    by (rule two_powi_less_cancel)
  show ?thesis using 1 2 by linarith
qed

lemma expo_mono:
  assumes "0 < x" "x \<le> y"
  shows "expo x \<le> expo y"
proof -
  have "2 powi expo x \<le> x" using expo_bounds(1) [of x] assms by simp
  moreover have "y < 2 powi (expo y + 1)" using expo_bounds(2) [of y] assms by simp
  ultimately have "(2::rat) powi expo x < 2 powi (expo y + 1)"
    using assms by linarith
  then have "expo x < expo y + 1"
    by (rule two_powi_less_cancel)
  then show ?thesis by simp
qed

lemma round_to_nonneg:
  assumes "0 \<le> x"
  shows "0 \<le> round_to f x"
proof -
  have "0 \<le> x / ulp f x"
    using assms ulp_pos [of f x] by simp
  then have "round_half_even 0 \<le> round_half_even (x / ulp f x)"
    by (rule rhe_mono)
  then have "0 \<le> round_half_even (x / ulp f x)"
    using rhe_of_int [of 0] by simp
  then show ?thesis
    using ulp_pos [of f x] by (simp add: round_to_def)
qed

lemma round_to_upper:
  assumes "0 < x"
  shows "round_to f x \<le> 2 powi (max (expo x) (emin f) + 1)"
proof -
  define E where "E = max (expo x) (emin f)"
  define p where "p = precision f"
  have q: "ulp f x = 2 powi (E - int p + 1)"
    by (simp add: ulp_def E_def p_def)
  have "(2::rat) powi (E + 1) = 2 powi int p * 2 powi (E - int p + 1)"
    by (subst power_int_add [symmetric]) simp_all
  then have split: "(2::rat) powi (E + 1) = of_int (2 ^ p) * ulp f x"
    by (simp add: q)
  have "x < 2 powi (expo x + 1)"
    using expo_bounds(2) [of x] assms by simp
  also have "\<dots> \<le> 2 powi (E + 1)"
    by (intro power_int_increasing) (simp_all add: E_def)
  finally have "x / ulp f x \<le> of_int (2 ^ p)"
    using ulp_pos [of f x] by (simp add: split field_simps)
  then have "round_half_even (x / ulp f x) \<le> round_half_even (of_int (2 ^ p))"
    by (rule rhe_mono)
  then have "round_half_even (x / ulp f x) \<le> 2 ^ p"
    by (simp only: rhe_of_int)
  then have "(of_int (round_half_even (x / ulp f x)) :: rat) \<le> of_int (2 ^ p)"
    by (simp only: of_int_le_iff)
  then have "of_int (round_half_even (x / ulp f x)) * ulp f x \<le> of_int (2 ^ p) * ulp f x"
    using ulp_pos [of f x] by (simp add: mult_right_mono)
  then have "round_to f x \<le> of_int (2 ^ p) * ulp f x"
    using assms by (simp add: round_to_def)
  then show ?thesis
    by (simp only: split [symmetric] E_def)
qed

lemma round_to_lower:
  assumes "0 < x" "emin f \<le> expo x" "1 \<le> precision f"
  shows "2 powi expo x \<le> round_to f x"
proof -
  define p where "p = precision f"
  obtain p' where p': "p = Suc p'"
    using assms(3) by (cases p) (simp_all add: p_def)
  have q: "ulp f x = 2 powi (expo x - int p')"
    using assms(2) by (simp add: ulp_def p_def [symmetric] p' max_def)
  have "(2::rat) powi expo x = 2 powi int p' * 2 powi (expo x - int p')"
    by (subst power_int_add [symmetric]) simp_all
  then have split: "(2::rat) powi expo x = of_int (2 ^ p') * ulp f x"
    by (simp add: q)
  have "2 powi expo x \<le> x"
    using expo_bounds(1) [of x] assms by simp
  then have "of_int (2 ^ p') \<le> x / ulp f x"
    using ulp_pos [of f x] by (simp add: split field_simps)
  then have "round_half_even (of_int (2 ^ p')) \<le> round_half_even (x / ulp f x)"
    by (rule rhe_mono)
  then have "2 ^ p' \<le> round_half_even (x / ulp f x)"
    by (simp only: rhe_of_int)
  then have "(of_int (2 ^ p') :: rat) \<le> of_int (round_half_even (x / ulp f x))"
    by (simp only: of_int_le_iff)
  then have "of_int (2 ^ p') * ulp f x \<le> of_int (round_half_even (x / ulp f x)) * ulp f x"
    using ulp_pos [of f x] by (simp add: mult_right_mono)
  then have "of_int (2 ^ p') * ulp f x \<le> round_to f x"
    using assms by (simp add: round_to_def)
  then show ?thesis
    by (simp only: split [symmetric])
qed

lemma round_to_mono_pos:
  assumes "0 < x" "x \<le> y" "1 \<le> precision f"
  shows "round_to f x \<le> round_to f y"
proof (cases "max (expo x) (emin f) = max (expo y) (emin f)")
  case True
  then have q: "ulp f x = ulp f y"
    by (simp add: ulp_def)
  have "x / ulp f y \<le> y / ulp f y"
    using assms(2) ulp_pos [of f y] by (simp add: divide_right_mono)
  then have "round_half_even (x / ulp f y) \<le> round_half_even (y / ulp f y)"
    by (rule rhe_mono)
  then have "(of_int (round_half_even (x / ulp f y)) :: rat) \<le> of_int (round_half_even (y / ulp f y))"
    by (simp only: of_int_le_iff)
  then have "of_int (round_half_even (x / ulp f y)) * ulp f y
      \<le> of_int (round_half_even (y / ulp f y)) * ulp f y"
    using ulp_pos [of f y] by (simp add: mult_right_mono)
  then show ?thesis
    using assms by (simp add: round_to_def q)
next
  case False
  have le: "expo x \<le> expo y"
    using assms by (intro expo_mono)
  then have lt: "max (expo x) (emin f) + 1 \<le> expo y" and ge: "emin f \<le> expo y"
    using False by (simp_all add: max_def split: if_splits)
  have "round_to f x \<le> 2 powi (max (expo x) (emin f) + 1)"
    using assms(1) by (rule round_to_upper)
  also have "\<dots> \<le> 2 powi expo y"
    using lt by (intro power_int_increasing) simp_all
  also have "\<dots> \<le> round_to f y"
    using assms ge by (intro round_to_lower) simp_all
  finally show ?thesis .
qed

lemma round_to_mono:
  assumes "x \<le> y" "1 \<le> precision f"
  shows "round_to f x \<le> round_to f y"
proof -
  consider "0 < x" | "x \<le> 0" "0 \<le> y" | "y < 0"
    by linarith
  then show ?thesis
  proof cases
    case 1
    then show ?thesis using assms by (intro round_to_mono_pos)
  next
    case 2
    have "0 \<le> round_to f (- x)"
      using 2(1) by (intro round_to_nonneg) simp
    then have "round_to f x \<le> 0"
      by (simp add: round_to_minus)
    also have "0 \<le> round_to f y"
      using 2(2) by (rule round_to_nonneg)
    finally show ?thesis .
  next
    case 3
    have "round_to f (- y) \<le> round_to f (- x)"
      using 3 assms by (intro round_to_mono_pos) simp_all
    then show ?thesis
      by (simp add: round_to_minus)
  qed
qed

section \<open>The conversion to the scaled domain is monotone\<close>

lemma rnd_eq_Finite:
  "rnd f x = Finite r \<longleftrightarrow> r = round_to f x \<and> \<bar>round_to f x\<bar> \<le> max_finite f"
  by (auto simp add: rnd_def Let_def)

lemma rnd_nonneg:
  assumes "0 \<le> x" "rnd f x = Finite r"
  shows "0 \<le> r"
  using assms round_to_nonneg [of x f] by (simp add: rnd_eq_Finite)

lemma rnd_between:
  assumes "rnd f a = Finite ra" "rnd f b = Finite rb" "a \<le> x" "x \<le> b" "1 \<le> precision f"
  shows "\<exists>rx. rnd f x = Finite rx \<and> ra \<le> rx \<and> rx \<le> rb"
proof -
  have 1: "round_to f a \<le> round_to f x" "round_to f x \<le> round_to f b"
    using assms by (simp_all add: round_to_mono)
  have 2: "ra = round_to f a" "\<bar>round_to f a\<bar> \<le> max_finite f"
    "rb = round_to f b" "\<bar>round_to f b\<bar> \<le> max_finite f"
    using assms(1,2) by (simp_all add: rnd_eq_Finite)
  have "\<bar>round_to f x\<bar> \<le> max_finite f"
    using 1 2 by linarith
  then have "rnd f x = Finite (round_to f x)"
    by (simp add: rnd_eq_Finite)
  then show ?thesis
    using 1 2 by simp
qed

lemma convert_to_scaled_Finite:
  assumes "scale_factor t = Finite sf"
  shows "convert_to_scaled t (Finite x) = Some k \<longleftrightarrow>
    (\<exists>r. rnd (input_type t) (x * sf) = Finite r \<and> k = c_round r \<and>
         lowest (storage_type t) \<le> k \<and> k \<le> highest (storage_type t))"
proof (cases "rnd (input_type t) (x * sf)")
  case (Finite r)
  then show ?thesis
    using assms by (auto simp add: convert_to_scaled_def trunc_of_int)
next
  case (Infinity s)
  then show ?thesis
    using assms by (simp add: convert_to_scaled_def)
next
  case NaN
  then show ?thesis
    using assms by (simp add: convert_to_scaled_def)
qed

lemma convert_to_scaled_mono:
  assumes sf: "scale_factor t = Finite sf" "0 \<le> sf" and p: "1 \<le> precision (input_type t)"
    and a: "convert_to_scaled t (Finite a) = Some ka"
    and b: "convert_to_scaled t (Finite b) = Some kb"
    and x: "a \<le> x" "x \<le> b"
  shows "\<exists>k. convert_to_scaled t (Finite x) = Some k \<and> ka \<le> k \<and> k \<le> kb"
proof -
  obtain ra where ra: "rnd (input_type t) (a * sf) = Finite ra" "ka = c_round ra"
    "lowest (storage_type t) \<le> ka"
    using a convert_to_scaled_Finite [OF sf(1)] by blast
  obtain rb where rb: "rnd (input_type t) (b * sf) = Finite rb" "kb = c_round rb"
    "kb \<le> highest (storage_type t)"
    using b convert_to_scaled_Finite [OF sf(1)] by blast
  have "a * sf \<le> x * sf" "x * sf \<le> b * sf"
    using x sf(2) by (simp_all add: mult_right_mono)
  then obtain rx where rx: "rnd (input_type t) (x * sf) = Finite rx" "ra \<le> rx" "rx \<le> rb"
    using rnd_between [OF ra(1) rb(1) _ _ p] by blast
  have k: "ka \<le> c_round rx" "c_round rx \<le> kb"
    using rx ra(2) rb(2) by (simp_all add: c_round_mono)
  then have "convert_to_scaled t (Finite x) = Some (c_round rx)"
    using rx(1) ra(3) rb(3) by (simp add: convert_to_scaled_Finite [OF sf(1)])
  then show ?thesis
    using k by simp
qed

lemma convert_to_scaled_Some_Finite:
  assumes "scale_factor t = Finite sf" "convert_to_scaled t v = Some k"
  obtains x where "v = Finite x"
proof (cases v)
  case (Finite x)
  then show ?thesis by (rule that)
next
  case (Infinity s)
  then show ?thesis
    using assms by (simp add: convert_to_scaled_def split: if_splits)
next
  case NaN
  then show ?thesis
    using assms by (simp add: convert_to_scaled_def)
qed

lemma scale_factor_nonneg:
  assumes "fless (Finite 0) (resolution t)" "scale_factor t = Finite sf"
  shows "0 \<le> sf"
proof (cases "scale_numerator t")
  case (Finite a)
  then have a: "0 \<le> a"
    using rnd_nonneg [of 1 "input_type t" a] by (simp add: scale_numerator_def)
  show ?thesis
  proof (cases "resolution t")
    case res: (Finite r)
    then have "0 < r" using assms(1) by simp
    then have "rnd (input_type t) (a / r) = Finite sf" "0 \<le> a / r"
      using assms(2) Finite res a by (simp_all add: scale_factor_def)
    then show ?thesis
      using rnd_nonneg by blast
  next
    case (Infinity s)
    then show ?thesis
      using assms(2) Finite by (simp add: scale_factor_def)
  next
    case NaN
    then show ?thesis
      using assms(1) by simp
  qed
next
  case (Infinity s)
  then show ?thesis
    using assms(2) by (cases "resolution t") (simp_all add: scale_factor_def)
next
  case NaN
  then show ?thesis
    using assms(2) by (simp add: scale_factor_def)
qed

lemma well_formedD:
  assumes "well_formed t"
  obtains lo hi sf a b where
    "min_value t = Finite lo" "max_value t = Finite hi" "lo \<le> hi"
    "scale_factor t = Finite sf" "0 \<le> sf"
    "static_min_scaled_value t = Some a" "static_max_scaled_value t = Some b"
proof -
  obtain sf where sf: "scale_factor t = Finite sf"
    using assms by (auto simp add: well_formed_def is_finite_def split: fp.splits)
  have pos: "0 \<le> sf"
    using assms sf by (intro scale_factor_nonneg [of t]) (simp_all add: well_formed_def)
  obtain a b where ab: "static_min_scaled_value t = Some a" "static_max_scaled_value t = Some b"
    using assms by (auto simp add: well_formed_def)
  obtain lo where lo: "min_value t = Finite lo"
    using ab(1) sf convert_to_scaled_Some_Finite
    by (metis static_min_scaled_value_def)
  obtain hi where hi: "max_value t = Finite hi"
    using ab(2) sf convert_to_scaled_Some_Finite
    by (metis static_max_scaled_value_def)
  have "lo \<le> hi"
    using assms lo hi by (simp add: well_formed_def fle_def)
  then show ?thesis
    using that lo hi sf pos ab by blast
qed

lemma clamp_Finite:
  assumes "v \<noteq> NaN" "lo \<le> hi"
  obtains c where "clamp v (Finite lo) (Finite hi) = Finite c" "lo \<le> c" "c \<le> hi"
proof (cases v)
  case (Finite x)
  have "clamp v (Finite lo) (Finite hi)
      = Finite (if x < lo then lo else if hi < x then hi else x)"
    by (simp add: clamp_def Finite)
  moreover have "lo \<le> (if x < lo then lo else if hi < x then hi else x)"
    "(if x < lo then lo else if hi < x then hi else x) \<le> hi"
    using assms(2) by simp_all
  ultimately show ?thesis
    by (rule that)
next
  case (Infinity s)
  then show ?thesis
    using assms(2) that by (cases s) (simp_all add: clamp_def)
next
  case NaN
  then show ?thesis using assms(1) by simp
qed

lemma convert_to_scaled_clamp:
  assumes "well_formed t" "v \<noteq> NaN"
  obtains k lo hi where
    "convert_to_scaled t (clamp v (min_value t) (max_value t)) = Some k"
    "static_min_scaled_value t = Some lo" "static_max_scaled_value t = Some hi"
    "lo \<le> k" "k \<le> hi"
proof -
  obtain lo hi sf a b where wf:
    "min_value t = Finite lo" "max_value t = Finite hi" "lo \<le> hi"
    "scale_factor t = Finite sf" "0 \<le> sf"
    "static_min_scaled_value t = Some a" "static_max_scaled_value t = Some b"
    using assms(1) by (rule well_formedD)
  obtain c where c: "clamp v (Finite lo) (Finite hi) = Finite c" "lo \<le> c" "c \<le> hi"
    using assms(2) wf(3) by (rule clamp_Finite)
  have p: "1 \<le> precision (input_type t)"
    using assms(1) by (simp add: well_formed_def floating_point_def)
  have "convert_to_scaled t (Finite lo) = Some a" "convert_to_scaled t (Finite hi) = Some b"
    using wf by (simp_all add: static_min_scaled_value_def static_max_scaled_value_def)
  then obtain k where "convert_to_scaled t (Finite c) = Some k" "a \<le> k" "k \<le> b"
    using convert_to_scaled_mono [OF wf(4,5) p _ _ c(2,3)] by blast
  then show ?thesis
    using that wf c by simp
qed

text \<open>NaN passes through \<^verbatim>\<open>std::clamp\<close> and the product, and its conversion to the
  storage type has no defined behaviour.\<close>

lemma clamp_NaN: "clamp NaN lo hi = NaN"
  by (cases lo; cases hi) (simp_all add: clamp_def)

lemma set_value_NaN: "set_value t NaN b = None"
  by (simp add: set_value_def clamp_NaN convert_to_scaled_def)

lemma base_init_NaN: "base_init t NaN = None"
  by (simp add: base_init_def clamp_NaN convert_to_scaled_def)

section \<open>Rounding error\<close>

lemma round_to_error: "\<bar>round_to f z - z\<bar> \<le> ulp f z / 2"
proof (cases "z = 0")
  case True
  then show ?thesis
    using ulp_pos [of f z] by (simp add: round_to_def)
next
  case False
  define q where "q = ulp f z"
  have q: "0 < q"
    by (simp add: q_def ulp_pos)
  define n where "n = round_half_even (z / q)"
  have "\<bar>of_int n - z / q\<bar> \<le> 1 / 2"
    unfolding n_def by (rule rhe_error)
  then have "\<bar>of_int n - z / q\<bar> * q \<le> 1 / 2 * q"
    using q by (intro mult_right_mono) simp_all
  moreover have "\<bar>of_int n - z / q\<bar> * q = \<bar>of_int n * q - z\<bar>"
  proof -
    have "\<bar>of_int n - z / q\<bar> * q = \<bar>(of_int n - z / q) * q\<bar>"
      using q by (simp add: abs_mult)
    also have "(of_int n - z / q) * q = of_int n * q - z"
      using q by (simp add: field_simps)
    finally show ?thesis .
  qed
  ultimately have "\<bar>of_int n * q - z\<bar> \<le> q / 2"
    by simp
  then show ?thesis
    using False by (simp add: round_to_def n_def q_def)
qed

lemma epsilon_pos: "0 < epsilon f"
  by (simp add: epsilon_def)

lemma ulp_normal:
  assumes "2 powi emin f \<le> \<bar>z\<bar>"
  shows "ulp f z \<le> epsilon f * \<bar>z\<bar>"
proof -
  have nz: "z \<noteq> 0"
  proof
    assume "z = 0"
    then have "(2::rat) powi emin f \<le> 0" using assms by simp
    moreover have "0 < (2::rat) powi emin f" by simp
    ultimately show False by linarith
  qed
  have "(2::rat) powi emin f < 2 powi (expo z + 1)"
    using assms expo_bounds(2) [OF nz] by linarith
  then have "emin f < expo z + 1"
    by (rule two_powi_less_cancel)
  then have "ulp f z = 2 powi (expo z - int (precision f) + 1)"
    by (simp add: ulp_def max_def)
  also have "\<dots> = 2 powi (1 - int (precision f)) * 2 powi expo z"
    by (subst power_int_add [symmetric]) (simp_all add: algebra_simps)
  also have "\<dots> \<le> 2 powi (1 - int (precision f)) * \<bar>z\<bar>"
    using expo_bounds(1) [OF nz] by (intro mult_left_mono) simp_all
  finally show ?thesis
    by (simp add: epsilon_def)
qed

lemma round_to_error_normal:
  assumes "2 powi emin f \<le> \<bar>z\<bar>"
  shows "\<bar>round_to f z - z\<bar> \<le> epsilon f / 2 * \<bar>z\<bar>"
  using round_to_error [of f z] ulp_normal [OF assms] by simp

lemma round_to_error_general:
  "\<bar>round_to f z - z\<bar> \<le> epsilon f / 2 * \<bar>z\<bar> + 2 powi (emin f - int (precision f))"
proof (cases "2 powi emin f \<le> \<bar>z\<bar>")
  case True
  have "0 \<le> (2::rat) powi (emin f - int (precision f))"
    by simp
  then show ?thesis
    using round_to_error_normal [OF True] by linarith
next
  case False
  have "expo z < emin f" if "z \<noteq> 0"
  proof -
    have "(2::rat) powi expo z < 2 powi emin f"
      using expo_bounds(1) [OF that] False by linarith
    then show ?thesis
      by (rule two_powi_less_cancel)
  qed
  then have "ulp f z = 2 powi (emin f - int (precision f) + 1) \<or> z = 0"
    by (auto simp add: ulp_def max_def)
  moreover have "(2::rat) powi (emin f - int (precision f) + 1) = 2 * 2 powi (emin f - int (precision f))"
    by (simp add: power_int_add)
  moreover have "0 \<le> epsilon f / 2 * \<bar>z\<bar>"
    using epsilon_pos [of f] by simp
  moreover have "0 \<le> (2::rat) powi (emin f - int (precision f))"
    by simp
  ultimately show ?thesis
    using round_to_error [of f z] by (auto simp add: round_to_def)
qed

lemma max_finite_ge_1:
  assumes "floating_point f"
  shows "1 \<le> max_finite f"
proof -
  obtain p' where p': "precision f = Suc p'"
    using assms by (cases "precision f") (simp_all add: floating_point_def)
  have "(1::rat) \<le> 2 powi emax f"
    using assms by (intro one_le_power_int) (simp_all add: floating_point_def)
  also have "\<dots> = 2 powi int p' * 2 powi (emax f - int p')"
    by (subst power_int_add [symmetric]) simp_all
  also have "\<dots> \<le> (2 ^ Suc p' - 1) * 2 powi (emax f - int p')"
  proof (intro mult_right_mono)
    have "(1::rat) \<le> 2 ^ p'" by simp
    then show "(2::rat) powi int p' \<le> 2 ^ Suc p' - 1" by simp
  qed simp
  finally show ?thesis
    by (simp add: max_finite_def p')
qed

lemma expo_1: "expo 1 = 0"
  by (rule expo_unique) simp_all

lemma round_to_1:
  assumes "floating_point f"
  shows "round_to f 1 = 1"
proof -
  obtain p' where p': "precision f = Suc p'"
    using assms by (cases "precision f") (simp_all add: floating_point_def)
  have "emin f \<le> 0"
    using assms by (simp add: emin_def floating_point_def)
  then have q: "ulp f 1 = 2 powi (- int p')"
    by (simp add: ulp_def expo_1 p' max_def)
  have "1 / ulp f 1 = of_int (2 ^ p')"
    by (simp add: q power_int_minus field_simps)
  then have "round_half_even (1 / ulp f 1) = 2 ^ p'"
    by (simp only: rhe_of_int)
  then show ?thesis
    by (simp add: round_to_def q power_int_minus)
qed

lemma scale_numerator_1:
  assumes "floating_point (input_type t)"
  shows "scale_numerator t = Finite 1"
  using round_to_1 [OF assms] max_finite_ge_1 [OF assms]
  by (simp add: scale_numerator_def rnd_eq_Finite)

lemma epsilon_le_half:
  assumes "floating_point f"
  shows "epsilon f \<le> 1 / 2"
proof -
  have "(2::rat) powi (1 - int (precision f)) \<le> 2 powi (- 1)"
    using assms by (intro power_int_increasing) (simp_all add: floating_point_def)
  then show ?thesis
    by (simp add: epsilon_def)
qed

lemma subnormal_step: "2 powi (emin f - int (precision f)) = 2 powi emin f * (epsilon f / 2 :: rat)"
proof -
  have "(2::rat) powi (emin f - int (precision f)) = 2 powi emin f * 2 powi (- int (precision f))"
    by (subst power_int_add [symmetric]) simp_all
  moreover have "epsilon f / 2 = 2 powi (- int (precision f))"
    by (simp add: epsilon_def power_int_diff power_int_minus field_simps)
  ultimately show ?thesis by simp
qed

text \<open>The error analysis of the round trip, on numbers alone: \<open>u\<close> is the unit
  roundoff, \<open>s\<close> the rounded product, \<open>k'\<close> the stored integer, \<open>kf\<close> its conversion
  back and \<open>y\<close> the rounded quotient.\<close>

lemma quantization_error_analysis:
  fixes x sf s k' kf y r u :: rat
  assumes u: "0 < u" "u \<le> 1 / 4"
    and r: "0 < r"
    and sf: "\<bar>sf - 1 / r\<bar> \<le> u * (1 / r)"
    and e1: "\<bar>s - x * sf\<bar> \<le> u * \<bar>x * sf\<bar> + u"
    and e2: "\<bar>k' - s\<bar> \<le> 1 / 2"
    and e3: "\<bar>kf - k'\<bar> \<le> u * \<bar>k'\<bar>"
    and e4: "\<bar>y - kf / sf\<bar> \<le> u * \<bar>kf / sf\<bar> + u * r"
  shows "\<bar>y - x\<bar> \<le> r / 2 + 6 * u * (\<bar>x\<bar> + r)"
proof -
  have "1 / r - u * (1 / r) \<le> sf"
    using sf by linarith
  moreover have "(1 - u) / r = 1 / r - u * (1 / r)"
    by (simp add: diff_divide_distrib)
  ultimately have "(1 - u) / r \<le> sf"
    by simp
  moreover have "0 < (1 - u) / r"
    using u r by simp
  ultimately have sf_pos: "0 < sf"
    by linarith
  define R where "R = 1 / sf"
  have R: "0 < R" "sf * R = 1"
    using sf_pos by (simp_all add: R_def)
  have "(1 - u) / r * R \<le> sf * R"
    using \<open>(1 - u) / r \<le> sf\<close> R(1) by (intro mult_right_mono) simp_all
  then have "(1 - u) * R / r \<le> 1"
    by (simp add: R(2))
  then have "(1 - u) * R \<le> r"
    using r by (simp add: pos_divide_le_eq)
  then have R1: "R - u * R \<le> r"
    by (simp add: algebra_simps)
  have "u * R \<le> 1 / 4 * R"
    using u R(1) by (intro mult_right_mono) simp_all
  then have R2: "R \<le> 4 / 3 * r"
    using R1 by linarith
  define a where "a = \<bar>x\<bar>"
  define ua where "ua = u * a"
  define ur where "ur = u * r"
  have a: "0 \<le> a" by (simp add: a_def)
  have uR: "u * R \<le> 4 / 3 * ur"
  proof -
    have "u * R \<le> u * (4 / 3 * r)"
      using u R2 by (intro mult_left_mono) simp_all
    then show ?thesis by (simp add: ur_def)
  qed
  have ua4: "ua \<le> a / 4" "0 \<le> ua"
  proof -
    have "u * a \<le> 1 / 4 * a"
      using u a by (intro mult_right_mono) simp_all
    then show "ua \<le> a / 4" by (simp add: ua_def)
    show "0 \<le> ua" using u a by (simp add: ua_def)
  qed
  have ur4: "ur \<le> r / 4" "0 \<le> ur"
  proof -
    have "u * r \<le> 1 / 4 * r"
      using u r by (intro mult_right_mono) simp_all
    then show "ur \<le> r / 4" by (simp add: ur_def)
    show "0 \<le> ur" using u r by (simp add: ur_def)
  qed
  define A where "A = s * R"
  define B where "B = k' * R"
  define C where "C = kf * R"
  have scale: "\<bar>z * R - w\<bar> = \<bar>z - w * sf\<bar> * R" for z w
  proof -
    have "z * R - w = (z - w * sf) * R"
      using R(2) by (simp add: algebra_simps)
    then show ?thesis
      using R(1) by (simp add: abs_mult)
  qed
  have Ax: "\<bar>A - x\<bar> \<le> ua + 4 / 3 * ur"
  proof -
    have "\<bar>A - x\<bar> = \<bar>s - x * sf\<bar> * R"
      unfolding A_def by (rule scale)
    also have "\<dots> \<le> (u * \<bar>x * sf\<bar> + u) * R"
      using e1 R(1) by (intro mult_right_mono) simp_all
    also have "\<dots> = u * a * (sf * R) + u * R"
      using sf_pos by (simp add: a_def abs_mult algebra_simps)
    also have "\<dots> = ua + u * R"
      by (simp add: R(2) ua_def)
    finally show ?thesis
      using uR by linarith
  qed
  have BA: "\<bar>B - A\<bar> \<le> r / 2 + 2 / 3 * ur"
  proof -
    have "B - A = (k' - s) * R"
      by (simp add: A_def B_def algebra_simps)
    then have "\<bar>B - A\<bar> = \<bar>k' - s\<bar> * R"
      using R(1) by (simp add: abs_mult)
    also have "\<dots> \<le> 1 / 2 * R"
      using e2 R(1) by (intro mult_right_mono) simp_all
    finally show ?thesis
      using R1 uR by linarith
  qed
  have Bb: "\<bar>B\<bar> \<le> 5 / 4 * a + r"
  proof -
    have "\<bar>B\<bar> \<le> \<bar>x\<bar> + \<bar>A - x\<bar> + \<bar>B - A\<bar>"
      by linarith
    then show ?thesis
      using Ax BA ua4 ur4 by (simp add: a_def) 
  qed
  have CB: "\<bar>C - B\<bar> \<le> 5 / 4 * ua + ur"
  proof -
    have "C - B = (kf - k') * R"
      by (simp add: C_def B_def algebra_simps)
    then have "\<bar>C - B\<bar> = \<bar>kf - k'\<bar> * R"
      using R(1) by (simp add: abs_mult)
    also have "\<dots> \<le> u * \<bar>k'\<bar> * R"
      using e3 R(1) by (intro mult_right_mono) simp_all
    also have "\<dots> = u * \<bar>B\<bar>"
      using R(1) by (simp add: B_def abs_mult)
    also have "\<dots> \<le> u * (5 / 4 * a + r)"
      using Bb u by (intro mult_left_mono) simp_all
    finally show ?thesis
      by (simp add: ua_def ur_def algebra_simps)
  qed
  have Cb: "\<bar>C\<bar> \<le> 25 / 16 * a + 5 / 4 * r"
  proof -
    have "\<bar>C\<bar> \<le> \<bar>B\<bar> + \<bar>C - B\<bar>"
      by linarith
    then show ?thesis
      using Bb CB ua4 ur4 by linarith
  qed
  have yC: "\<bar>y - C\<bar> \<le> 25 / 16 * ua + 9 / 4 * ur"
  proof -
    have "kf / sf = C"
      by (simp add: C_def R_def)
    then have "\<bar>y - C\<bar> \<le> u * \<bar>C\<bar> + u * r"
      using e4 by simp
    moreover have "u * \<bar>C\<bar> \<le> u * (25 / 16 * a + 5 / 4 * r)"
      using Cb u by (intro mult_left_mono) simp_all
    ultimately show ?thesis
      by (simp add: ua_def ur_def algebra_simps)
  qed
  have "\<bar>y - x\<bar> \<le> \<bar>y - C\<bar> + \<bar>C - B\<bar> + \<bar>B - A\<bar> + \<bar>A - x\<bar>"
    by linarith
  then have "\<bar>y - x\<bar> \<le> r / 2 + 6 * ua + 6 * ur"
    using yC CB BA Ax ua4(2) ur4(2) by linarith
  then show ?thesis
    by (simp add: ua_def ur_def a_def algebra_simps)
qed

lemma two_powi_emin_le_1:
  assumes "floating_point f"
  shows "(2::rat) powi emin f \<le> 1"
proof -
  have "(2::rat) powi emin f \<le> 2 powi 0"
    using assms by (intro power_int_increasing) (simp_all add: emin_def floating_point_def)
  then show ?thesis by simp
qed

lemma round_to_int_error:
  assumes "floating_point f"
  shows "\<bar>round_to f (of_int k) - of_int k\<bar> \<le> epsilon f / 2 * \<bar>of_int k\<bar>"
proof (cases "k = 0")
  case True
  then show ?thesis by (simp add: round_to_def)
next
  case False
  then have "(1::rat) \<le> \<bar>of_int k\<bar>"
    by (simp flip: of_int_abs)
  then have "2 powi emin f \<le> \<bar>of_int k :: rat\<bar>"
    using two_powi_emin_le_1 [OF assms] by linarith
  then show ?thesis
    by (rule round_to_error_normal)
qed


lemma rnd_0: "rnd f 0 = Finite 0"
proof -
  have "(1::rat) \<le> 2 ^ precision f"
    by simp
  then have "0 \<le> max_finite f"
    by (simp add: max_finite_def)
  then show ?thesis
    by (simp add: rnd_def round_to_def)
qed

lemma round_to_epsilon_pos:
  assumes "floating_point f"
  shows "0 < round_to f (epsilon f)"
proof -
  have "(2::rat) powi (1 - int (precision f)) < 2 powi (1 - int (precision f) + 1)"
    by (intro power_int_strict_increasing) simp_all
  then have e: "expo (epsilon f) = 1 - int (precision f)"
    unfolding epsilon_def by (intro expo_unique) simp_all
  have "max (1 - int (precision f)) (emin f) \<le> 0"
    using assms by (simp add: floating_point_def emin_def)
  then have "max (1 - int (precision f)) (emin f) - int (precision f) + 1 \<le> 1 - int (precision f)"
    by simp
  then have "(2::rat) powi (max (1 - int (precision f)) (emin f) - int (precision f) + 1)
      \<le> 2 powi (1 - int (precision f))"
    by (intro power_int_increasing) simp_all
  moreover have "ulp f (epsilon f)
      = 2 powi (max (1 - int (precision f)) (emin f) - int (precision f) + 1)"
    by (simp only: ulp_def e)
  ultimately have "ulp f (epsilon f) \<le> epsilon f"
    by (simp only: epsilon_def)
  then have "1 \<le> epsilon f / ulp f (epsilon f)"
    using ulp_pos [of f "epsilon f"] by (simp add: pos_le_divide_eq)
  then have "round_half_even (of_int 1) \<le> round_half_even (epsilon f / ulp f (epsilon f))"
    by (intro rhe_mono) simp
  then have "1 \<le> round_half_even (epsilon f / ulp f (epsilon f))"
    by (simp only: rhe_of_int)
  then have "0 < (of_int (round_half_even (epsilon f / ulp f (epsilon f))) :: rat)"
    by simp
  then show ?thesis
    using ulp_pos [of f "epsilon f"] epsilon_pos [of f] by (simp add: round_to_def)
qed

lemma epsilon_limit_pos:
  assumes "floating_point (input_type t)"
  shows "fless (Finite 0) (epsilon_limit t)"
proof -
  define f where "f = input_type t"
  define h where "h = round_to f 100"
  have fpf: "floating_point f" and p: "1 \<le> precision f"
    using assms by (simp_all add: f_def floating_point_def)
  have "round_to f 1 \<le> round_to f 100"
    using p by (intro round_to_mono) simp_all
  then have h: "1 \<le> h"
    by (simp add: h_def round_to_1 [OF fpf])
  have pos: "fless (Finite 0) (rnd f x)" if "0 < round_to f x" for x
    using that by (simp add: rnd_def Let_def)
  show ?thesis
  proof (cases "max_finite f < \<bar>h\<bar>")
    case True
    then have "rnd f 100 = Infinity True"
      using h by (simp add: rnd_def h_def [symmetric])
    then show ?thesis
      using epsilon_pos [of f] by (simp add: epsilon_limit_def f_def [symmetric])
  next
    case False
    then have "rnd f 100 = Finite h"
      by (simp add: rnd_def h_def [symmetric])
    then have eq: "epsilon_limit t = rnd f (epsilon f * h)"
      by (simp add: epsilon_limit_def f_def [symmetric])
    have "epsilon f * 1 \<le> epsilon f * h"
      using h epsilon_pos [of f] by (intro mult_left_mono) simp_all
    then have "round_to f (epsilon f) \<le> round_to f (epsilon f * h)"
      using p by (intro round_to_mono) simp_all
    then have "0 < round_to f (epsilon f * h)"
      using round_to_epsilon_pos [OF fpf] by linarith
    then show ?thesis
      unfolding eq by (rule pos)
  qed
qed




section \<open>The concrete instantiations, evaluated\<close>

lemma temperature_well_formed: "well_formed temperature_traits"
  by code_simp

lemma temperature_static_min: "static_min_scaled_value temperature_traits = Some (- 500)"
  by code_simp

lemma temperature_static_max: "static_max_scaled_value temperature_traits = Some 500"
  by code_simp

lemma temperature_epsilon_limit: "epsilon_limit temperature_traits = Finite (100 * 2 powi (- 23))"
  by code_simp

lemma temperature_clamp_55:
  "clamp (rnd binary32 55) (min_value temperature_traits) (max_value temperature_traits) = Finite 50"
  by code_simp

lemma temperature_scaled_50: "convert_to_scaled temperature_traits (Finite 50) = Some 500"
  by code_simp

lemma temperature_difference_55:
  "fless (fabs (fsub (input_type temperature_traits) (rnd binary32 55) (Finite 50)))
     (epsilon_limit temperature_traits) = False"
  by code_simp

lemma temperature_physical:
  "convert_to_physical temperature_traits 250 = Finite 25"
  "convert_to_physical temperature_traits 500 = Finite 50"
  "convert_to_physical temperature_traits (- 500) = Finite (- 50)"
  by code_simp+

lemma light_intensity_static_min: "static_min_scaled_value light_intensity_traits = Some 0"
  by code_simp

lemma light_intensity_static_max: "static_max_scaled_value light_intensity_traits = Some 65535"
  by code_simp

lemma light_intensity_well_formed: "well_formed light_intensity_traits"
  by code_simp

lemma humidity_well_formed: "well_formed humidity_traits"
  by code_simp

lemma temperature_resolution: "resolution temperature_traits = Finite (13421773 / 134217728)"
  by code_simp

lemma temperature_quarter:
  "base_init temperature_traits (Finite (1 / 4)) = Some \<lparr>scaled_value = Some 3\<rparr>"
  "convert_to_physical temperature_traits 3 = Finite (5033165 / 16777216)"
  by code_simp+

lemma temperature_bounds:
  "min_value temperature_traits = Finite (- 50)" "max_value temperature_traits = Finite 50"
  by code_simp+

lemma temperature_scaled_values:
  "convert_to_scaled temperature_traits (Finite (- 50)) = Some (- 500)"
  "convert_to_scaled temperature_traits (Finite (13122929 / 524288)) = Some 250"
  by code_simp+

lemma temperature_differences:
  "fless (fabs (fsub (input_type temperature_traits) (Finite 55) (Finite 50)))
     (epsilon_limit temperature_traits) = False"
  "fless (fabs (fsub (input_type temperature_traits) (Finite (- 60)) (Finite (- 50))))
     (epsilon_limit temperature_traits) = False"
  "fless (fabs (fsub (input_type temperature_traits) (Infinity True) (Finite 50)))
     (epsilon_limit temperature_traits) = False"
  by code_simp+






section \<open>The claims\<close>

text \<open>
  C1. In every instantiation that compiles, \<^verbatim>\<open>set_raw_scaled_value(raw)\<close> returns false
  and leaves the object as it was when \<open>raw\<close> is below the scaled minimum or above the
  scaled maximum; otherwise it stores \<open>raw\<close>, which makes the object defined, and
  returns true. A raw value out of range is never clamped.
\<close>

theorem set_raw_scaled_value_validates:
  assumes "well_formed t"
  shows "\<exists>lo hi. static_min_scaled_value t = Some lo \<and> static_max_scaled_value t = Some hi \<and>
    set_raw_scaled_value t raw b =
      Some (if raw < lo \<or> raw > hi then (False, b) else (True, \<lparr>scaled_value = Some raw\<rparr>))"
proof -
  obtain lo hi where "static_min_scaled_value t = Some lo" "static_max_scaled_value t = Some hi"
    using assms by (auto simp add: well_formed_def)
  then show ?thesis
    by (simp add: set_raw_scaled_value_def)
qed

theorem set_raw_scaled_value_validates_witness:
  "well_formed temperature_traits \<and>
   set_raw_scaled_value temperature_traits 501 \<lparr>scaled_value = Some 250\<rparr>
     = Some (False, \<lparr>scaled_value = Some 250\<rparr>) \<and>
   set_raw_scaled_value temperature_traits (- 500) \<lparr>scaled_value = Some 250\<rparr>
     = Some (True, \<lparr>scaled_value = Some (- 500)\<rparr>)"
  using set_raw_scaled_value_validates [OF temperature_well_formed, of 501 "\<lparr>scaled_value = Some 250\<rparr>"]
    set_raw_scaled_value_validates [OF temperature_well_formed, of "- 500" "\<lparr>scaled_value = Some 250\<rparr>"]
  by (simp add: temperature_well_formed temperature_static_min temperature_static_max)

text \<open>
  C2. In every instantiation that compiles and for every input \<open>v\<close> other than NaN,
  \<^verbatim>\<open>set_value(v)\<close> stores, whatever the object held, the scaled encoding of \<open>v\<close>
  clamped to the bounds: of the minimum when \<open>v\<close> is below it or minus infinity, of
  the maximum when \<open>v\<close> is above it or plus infinity, of \<open>v\<close> itself otherwise. The
  object is defined afterwards. The result is true exactly when the magnitude of the
  difference between \<open>v\<close> and the clamped value, computed in the input type, is below
  \<open>epsilon_limit\<close>, the product of the machine epsilon and 100; it is true for every
  \<open>v\<close> within the bounds.
\<close>

theorem set_value_stores_clamped:
  assumes "well_formed t" "new_value \<noteq> NaN"
  shows "\<exists>lo hi c k. min_value t = Finite lo \<and> max_value t = Finite hi \<and>
    (\<forall>x. new_value = Finite x \<longrightarrow> c = (if x < lo then lo else if hi < x then hi else x)) \<and>
    (new_value = Infinity True \<longrightarrow> c = hi) \<and> (new_value = Infinity False \<longrightarrow> c = lo) \<and>
    convert_to_scaled t (Finite c) = Some k \<and>
    set_value t new_value b =
      Some (fless (fabs (fsub (input_type t) new_value (Finite c))) (epsilon_limit t),
            \<lparr>scaled_value = Some k\<rparr>) \<and>
    is_defined \<lparr>scaled_value = Some k\<rparr> \<and>
    (new_value = Finite c \<longrightarrow> set_value t new_value b = Some (True, \<lparr>scaled_value = Some k\<rparr>))"
proof -
  obtain lo hi sf a b' where t:
    "min_value t = Finite lo" "max_value t = Finite hi" "lo \<le> hi"
    "scale_factor t = Finite sf" "0 \<le> sf"
    "static_min_scaled_value t = Some a" "static_max_scaled_value t = Some b'"
    using assms(1) by (rule well_formedD)
  define c where "c = (case new_value of
      Finite x \<Rightarrow> (if x < lo then lo else if hi < x then hi else x)
    | Infinity s \<Rightarrow> (if s then hi else lo)
    | NaN \<Rightarrow> 0)"
  have cl: "clamp new_value (min_value t) (max_value t) = Finite c"
    using assms(2) t(3) by (cases new_value) (auto simp add: clamp_def t c_def)
  obtain k where k: "convert_to_scaled t (Finite c) = Some k"
    using convert_to_scaled_clamp [OF assms] cl by auto
  have sv: "set_value t new_value b =
      Some (fless (fabs (fsub (input_type t) new_value (Finite c))) (epsilon_limit t),
            \<lparr>scaled_value = Some k\<rparr>)"
    by (simp add: set_value_def cl k)
  have zero: "fless (fabs (fsub (input_type t) (Finite c) (Finite c))) (epsilon_limit t)"
    using assms(1) by (simp add: rnd_0 epsilon_limit_pos well_formed_def)
  have same: "new_value = Finite c \<longrightarrow>
      set_value t new_value b = Some (True, \<lparr>scaled_value = Some k\<rparr>)"
  proof
    assume "new_value = Finite c"
    then show "set_value t new_value b = Some (True, \<lparr>scaled_value = Some k\<rparr>)"
      using sv zero by (simp only: simp_thms)
  qed
  have c1: "\<forall>x. new_value = Finite x \<longrightarrow> c = (if x < lo then lo else if hi < x then hi else x)"
    by (simp add: c_def)
  have c2: "new_value = Infinity True \<longrightarrow> c = hi"
    by (simp add: c_def)
  have c3: "new_value = Infinity False \<longrightarrow> c = lo"
    by (simp add: c_def)
  have d: "is_defined \<lparr>scaled_value = Some k\<rparr>"
    by (simp add: is_defined_def)
  show ?thesis
    by (intro exI [of _ lo] exI [of _ hi] exI [of _ c] exI [of _ k] conjI)
      (rule t(1) t(2) c1 c2 c3 k sv d same)+
qed

theorem set_value_stores_clamped_witness:
  "well_formed temperature_traits \<and> Finite 55 \<noteq> NaN \<and>
   set_value temperature_traits (Finite 55) \<lparr>scaled_value = None\<rparr>
     = Some (False, \<lparr>scaled_value = Some 500\<rparr>) \<and>
   set_value temperature_traits (Finite (- 60)) \<lparr>scaled_value = Some 250\<rparr>
     = Some (False, \<lparr>scaled_value = Some (- 500)\<rparr>) \<and>
   set_value temperature_traits (Finite (13122929 / 524288)) \<lparr>scaled_value = Some 500\<rparr>
     = Some (True, \<lparr>scaled_value = Some 250\<rparr>) \<and>
   set_value temperature_traits (Infinity True) \<lparr>scaled_value = None\<rparr>
     = Some (False, \<lparr>scaled_value = Some 500\<rparr>) \<and>
   epsilon_limit temperature_traits = Finite (100 * 2 powi (- 23))"
proof -
  have finite: "set_value temperature_traits (Finite x) b =
      Some (fless (fabs (fsub (input_type temperature_traits) (Finite x) (Finite c)))
              (epsilon_limit temperature_traits), \<lparr>scaled_value = Some k\<rparr>) \<and>
      (x = c \<longrightarrow> set_value temperature_traits (Finite x) b
         = Some (True, \<lparr>scaled_value = Some k\<rparr>))"
    if "c = (if x < - 50 then - 50 else if 50 < x then 50 else x)"
      "convert_to_scaled temperature_traits (Finite c) = Some k" for x c k b
  proof -
    have "Finite x \<noteq> NaN" by simp
    from set_value_stores_clamped [OF temperature_well_formed this, of b]
    obtain lo hi c' k' where *:
      "min_value temperature_traits = Finite lo" "max_value temperature_traits = Finite hi"
      "\<forall>y. Finite x = Finite y \<longrightarrow> c' = (if y < lo then lo else if hi < y then hi else y)"
      "convert_to_scaled temperature_traits (Finite c') = Some k'"
      "set_value temperature_traits (Finite x) b =
        Some (fless (fabs (fsub (input_type temperature_traits) (Finite x) (Finite c')))
                (epsilon_limit temperature_traits), \<lparr>scaled_value = Some k'\<rparr>)"
      "Finite x = Finite c' \<longrightarrow> set_value temperature_traits (Finite x) b
         = Some (True, \<lparr>scaled_value = Some k'\<rparr>)"
      by blast
    have "lo = - 50" "hi = 50"
      using *(1,2) by (simp_all add: temperature_bounds)
    then have "c' = c"
      using *(3) that(1) by simp
    then have "k' = k"
      using *(4) that(2) by simp
    show ?thesis
      using *(5,6) \<open>c' = c\<close> \<open>k' = k\<close> by simp
  qed
  have infinite: "set_value temperature_traits (Infinity True) b =
      Some (fless (fabs (fsub (input_type temperature_traits) (Infinity True) (Finite 50)))
              (epsilon_limit temperature_traits), \<lparr>scaled_value = Some 500\<rparr>)" for b
  proof -
    have "Infinity True \<noteq> NaN" by simp
    from set_value_stores_clamped [OF temperature_well_formed this, of b]
    obtain lo hi c' k' where *:
      "max_value temperature_traits = Finite hi"
      "Infinity True = Infinity True \<longrightarrow> c' = hi"
      "convert_to_scaled temperature_traits (Finite c') = Some k'"
      "set_value temperature_traits (Infinity True) b =
        Some (fless (fabs (fsub (input_type temperature_traits) (Infinity True) (Finite c')))
                (epsilon_limit temperature_traits), \<lparr>scaled_value = Some k'\<rparr>)"
      by blast
    have "c' = 50"
      using *(1,2) by (simp add: temperature_bounds)
    then have "k' = 500"
      using *(3) by (simp add: temperature_scaled_50)
    show ?thesis
      using *(4) \<open>c' = 50\<close> \<open>k' = 500\<close> by simp
  qed
  have 1: "set_value temperature_traits (Finite 55) \<lparr>scaled_value = None\<rparr>
     = Some (False, \<lparr>scaled_value = Some 500\<rparr>)"
  proof -
    have "set_value temperature_traits (Finite 55) \<lparr>scaled_value = None\<rparr> =
      Some (fless (fabs (fsub (input_type temperature_traits) (Finite 55) (Finite 50)))
              (epsilon_limit temperature_traits), \<lparr>scaled_value = Some 500\<rparr>)"
      using finite [of 50 55 500 "\<lparr>scaled_value = None\<rparr>"] temperature_scaled_50 by simp
    then show ?thesis
      by (simp only: temperature_differences)
  qed
  have 2: "set_value temperature_traits (Finite (- 60)) \<lparr>scaled_value = Some 250\<rparr>
     = Some (False, \<lparr>scaled_value = Some (- 500)\<rparr>)"
  proof -
    have "set_value temperature_traits (Finite (- 60)) \<lparr>scaled_value = Some 250\<rparr> =
      Some (fless (fabs (fsub (input_type temperature_traits) (Finite (- 60)) (Finite (- 50))))
              (epsilon_limit temperature_traits), \<lparr>scaled_value = Some (- 500)\<rparr>)"
      using finite [of "- 50" "- 60" "- 500" "\<lparr>scaled_value = Some 250\<rparr>"]
        temperature_scaled_values(1) by simp
    then show ?thesis
      by (simp only: temperature_differences)
  qed
  have 3: "set_value temperature_traits (Finite (13122929 / 524288)) \<lparr>scaled_value = Some 500\<rparr>
     = Some (True, \<lparr>scaled_value = Some 250\<rparr>)"
  proof -
    have "13122929 / 524288
        = (if 13122929 / 524288 < (- 50 :: rat) then - 50
           else if 50 < (13122929 / 524288 :: rat) then 50 else 13122929 / 524288)"
      by simp
    from finite [OF this temperature_scaled_values(2), of "\<lparr>scaled_value = Some 500\<rparr>"]
    show ?thesis by blast
  qed
  have 4: "set_value temperature_traits (Infinity True) \<lparr>scaled_value = None\<rparr>
     = Some (False, \<lparr>scaled_value = Some 500\<rparr>)"
    using infinite [of "\<lparr>scaled_value = None\<rparr>"] by (simp only: temperature_differences)
  have "Finite 55 \<noteq> NaN" by simp
  then show ?thesis
    using temperature_well_formed 1 2 3 4 temperature_epsilon_limit by blast
qed

text \<open>
  For NaN the claim fails: both comparisons of \<^verbatim>\<open>std::clamp\<close> are false, NaN reaches the
  conversion to the storage type, which has no defined behaviour, and \<^verbatim>\<open>set_value\<close> has
  no result.
\<close>

theorem set_value_NaN_counterexample:
  "well_formed temperature_traits \<and>
   clamp NaN (min_value temperature_traits) (max_value temperature_traits) = NaN \<and>
   convert_to_scaled temperature_traits NaN = None \<and>
   set_value temperature_traits NaN \<lparr>scaled_value = None\<rparr> = None"
  using temperature_well_formed
  by (simp add: clamp_NaN set_value_NaN convert_to_scaled_def)

text \<open>
  C3. In every instantiation that compiles, each operation whose physical input is not
  NaN keeps the invariant: the default constructor, the constructor from a physical
  value, \<^verbatim>\<open>set_value\<close>, \<^verbatim>\<open>set_raw_scaled_value\<close> and \<^verbatim>\<open>clear\<close> all return, and the
  object they leave, when it is defined, holds an integer between the scaled minimum
  and the scaled maximum.
\<close>

theorem invariant_preserved:
  assumes "well_formed t"
  shows "invariant t base_default \<and>
    (\<forall>v. v \<noteq> NaN \<longrightarrow> (\<exists>b'. base_init t v = Some b' \<and> is_defined b' \<and> invariant t b')) \<and>
    (\<forall>v b. v \<noteq> NaN \<longrightarrow> invariant t b \<longrightarrow>
       (\<exists>r b'. set_value t v b = Some (r, b') \<and> is_defined b' \<and> invariant t b')) \<and>
    (\<forall>raw b. invariant t b \<longrightarrow>
       (\<exists>r b'. set_raw_scaled_value t raw b = Some (r, b') \<and> invariant t b')) \<and>
    (\<forall>b. invariant t (clear b))"
proof (intro conjI allI impI)
  show "invariant t base_default"
    by (simp add: invariant_def base_default_def)
next
  fix v :: fp
  assume "v \<noteq> NaN"
  with assms obtain k lo hi where
    "convert_to_scaled t (clamp v (min_value t) (max_value t)) = Some k"
    "static_min_scaled_value t = Some lo" "static_max_scaled_value t = Some hi"
    "lo \<le> k" "k \<le> hi"
    by (rule convert_to_scaled_clamp)
  then show "\<exists>b'. base_init t v = Some b' \<and> is_defined b' \<and> invariant t b'"
    by (simp add: base_init_def invariant_def is_defined_def)
next
  fix v :: fp and b :: base
  assume "v \<noteq> NaN"
  with assms obtain k lo hi where
    "convert_to_scaled t (clamp v (min_value t) (max_value t)) = Some k"
    "static_min_scaled_value t = Some lo" "static_max_scaled_value t = Some hi"
    "lo \<le> k" "k \<le> hi"
    by (rule convert_to_scaled_clamp)
  then show "\<exists>r b'. set_value t v b = Some (r, b') \<and> is_defined b' \<and> invariant t b'"
    by (simp add: set_value_def invariant_def is_defined_def)
next
  fix raw :: int and b :: base
  assume inv: "invariant t b"
  obtain lo hi where "static_min_scaled_value t = Some lo" "static_max_scaled_value t = Some hi"
    using assms by (auto simp add: well_formed_def)
  then show "\<exists>r b'. set_raw_scaled_value t raw b = Some (r, b') \<and> invariant t b'"
    using inv by (cases "raw < lo \<or> raw > hi") (auto simp add: set_raw_scaled_value_def invariant_def)
next
  fix b :: base
  show "invariant t (clear b)"
    by (simp add: invariant_def clear_def)
qed

theorem invariant_preserved_witness:
  "well_formed temperature_traits \<and> Finite 60 \<noteq> NaN \<and>
   invariant temperature_traits \<lparr>scaled_value = Some 250\<rparr> \<and>
   (\<exists>b'. base_init temperature_traits (Finite 60) = Some b' \<and> is_defined b' \<and>
      invariant temperature_traits b') \<and>
   (\<exists>r b'. set_value temperature_traits (Finite 60) \<lparr>scaled_value = Some 250\<rparr> = Some (r, b') \<and>
      is_defined b' \<and> invariant temperature_traits b') \<and>
   (\<exists>r b'. set_raw_scaled_value temperature_traits 501 \<lparr>scaled_value = Some 250\<rparr> = Some (r, b') \<and>
      invariant temperature_traits b')"
proof -
  have inv: "invariant temperature_traits \<lparr>scaled_value = Some 250\<rparr>"
    by (simp add: invariant_def temperature_static_min temperature_static_max)
  have nan: "Finite 60 \<noteq> NaN"
    by simp
  show ?thesis
    using invariant_preserved [OF temperature_well_formed] inv nan temperature_well_formed
    by blast
qed

text \<open>
  With NaN the constructor and \<^verbatim>\<open>set_value\<close> have no defined result, so nothing bounds
  the integer they leave in the object.
\<close>

theorem invariant_NaN_counterexample:
  "well_formed temperature_traits \<and>
   invariant temperature_traits \<lparr>scaled_value = Some 250\<rparr> \<and>
   base_init temperature_traits NaN = None \<and>
   set_value temperature_traits NaN \<lparr>scaled_value = Some 250\<rparr> = None"
  using temperature_well_formed
  by (simp add: base_init_NaN set_value_NaN invariant_def temperature_static_min
      temperature_static_max)

text \<open>
  C4. \<^verbatim>\<open>unit_string()\<close> depends on the traits alone and is meant to return the display
  string of the traits' unit, \<open>text_of (unit t)\<close>. The code calls \<^verbatim>\<open>to_string_view\<close>,
  which the repository does not declare, so no instantiation of \<^verbatim>\<open>unit_string()\<close>
  compiles and none returns the string that the lookup gives for its unit.
\<close>

theorem unit_string_not_declared:
  "unit_string temperature_traits = None \<and>
   text_of (unit temperature_traits) = [CHR 0xC2, CHR 0xB0, CHR ''C'']"
  by (simp add: unit_string_def declared_for_unit_def temperature_traits_def text_of_def
      items_def celsius_def)




text \<open>
  C6. The temperature scenario, each value a \<^verbatim>\<open>float\<close>: constructing from 25.03 stores
  250 and \<^verbatim>\<open>value()\<close> is 25; then \<^verbatim>\<open>set_value(55.0)\<close> returns false, stores 500 and
  \<^verbatim>\<open>value()\<close> is 50; then \<^verbatim>\<open>set_raw_scaled_value(501)\<close> returns false and changes
  nothing; then \<^verbatim>\<open>set_raw_scaled_value(-500)\<close> returns true and \<^verbatim>\<open>value()\<close> is -50.
\<close>

theorem temperature_scenario:
  "storage_type temperature_traits = int16_t \<and> input_type temperature_traits = binary32 \<and>
   min_value temperature_traits = Finite (- 50) \<and> max_value temperature_traits = Finite 50 \<and>
   base_init temperature_traits (rnd binary32 (2503 / 100)) = Some \<lparr>scaled_value = Some 250\<rparr> \<and>
   value temperature_traits \<lparr>scaled_value = Some 250\<rparr> = Some (Finite 25) \<and>
   set_value temperature_traits (rnd binary32 55) \<lparr>scaled_value = Some 250\<rparr>
     = Some (False, \<lparr>scaled_value = Some 500\<rparr>) \<and>
   value temperature_traits \<lparr>scaled_value = Some 500\<rparr> = Some (Finite 50) \<and>
   set_raw_scaled_value temperature_traits 501 \<lparr>scaled_value = Some 500\<rparr>
     = Some (False, \<lparr>scaled_value = Some 500\<rparr>) \<and>
   set_raw_scaled_value temperature_traits (- 500) \<lparr>scaled_value = Some 500\<rparr>
     = Some (True, \<lparr>scaled_value = Some (- 500)\<rparr>) \<and>
   value temperature_traits \<lparr>scaled_value = Some (- 500)\<rparr> = Some (Finite (- 50))"
proof -
  have bounds: "min_value temperature_traits = Finite (- 50)"
    "max_value temperature_traits = Finite 50"
    by code_simp+
  have init: "base_init temperature_traits (rnd binary32 (2503 / 100))
      = Some \<lparr>scaled_value = Some 250\<rparr>"
    by code_simp
  have set: "set_value temperature_traits (rnd binary32 55) \<lparr>scaled_value = Some 250\<rparr>
      = Some (False, \<lparr>scaled_value = Some 500\<rparr>)"
    by (simp add: set_value_def temperature_clamp_55 temperature_scaled_50
        temperature_difference_55)
  have raw: "set_raw_scaled_value temperature_traits 501 \<lparr>scaled_value = Some 500\<rparr>
      = Some (False, \<lparr>scaled_value = Some 500\<rparr>)"
    "set_raw_scaled_value temperature_traits (- 500) \<lparr>scaled_value = Some 500\<rparr>
      = Some (True, \<lparr>scaled_value = Some (- 500)\<rparr>)"
    by (simp_all add: set_raw_scaled_value_def temperature_static_min temperature_static_max)
  have val: "value temperature_traits \<lparr>scaled_value = Some 250\<rparr> = Some (Finite 25)"
    "value temperature_traits \<lparr>scaled_value = Some 500\<rparr> = Some (Finite 50)"
    "value temperature_traits \<lparr>scaled_value = Some (- 500)\<rparr> = Some (Finite (- 50))"
    by (simp_all add: value_def temperature_physical)
  have types: "storage_type temperature_traits = int16_t"
    "input_type temperature_traits = binary32"
    by (simp_all add: temperature_traits_def)
  show ?thesis
    using types bounds init set raw val by blast
qed

text \<open>
  C7. A default-constructed object is undefined, and its value and raw value are
  absent. After \<^verbatim>\<open>clear()\<close>, whatever the object held, \<^verbatim>\<open>value()\<close> and
  \<^verbatim>\<open>raw_scaled_value()\<close> are absent; \<^verbatim>\<open>clear()\<close> changes nothing in an object that is
  already undefined.
\<close>

theorem default_and_clear_are_undefined:
  "\<not> is_defined base_default \<and> value t base_default = None \<and>
   raw_scaled_value base_default = None \<and>
   \<not> is_defined (clear b) \<and> value t (clear b) = None \<and> raw_scaled_value (clear b) = None \<and>
   (\<not> is_defined b \<longrightarrow> clear b = b)"
  by (simp add: is_defined_def base_default_def value_def raw_scaled_value_def clear_def)

theorem default_and_clear_are_undefined_witness:
  "\<not> is_defined base_default \<and> clear base_default = base_default \<and>
   value humidity_traits base_default = None \<and>
   value humidity_traits (clear \<lparr>scaled_value = Some 100\<rparr>) = None \<and>
   raw_scaled_value (clear \<lparr>scaled_value = Some 100\<rparr>) = None"
  using default_and_clear_are_undefined [of humidity_traits base_default]
    default_and_clear_are_undefined [of humidity_traits "\<lparr>scaled_value = Some 100\<rparr>"]
  by simp

text \<open>
  C8. \<^verbatim>\<open>text_of\<close> is total: each of the seven enumerators has its display string, lux
  has \<open>''lx''\<close>, and every ordinal above that of \<^verbatim>\<open>meter_per_second\<close> gives the empty
  string.
\<close>

theorem text_of_total:
  "text_of celsius = [CHR 0xC2, CHR 0xB0, CHR ''C''] \<and> text_of percent = ''%'' \<and>
   text_of lux = ''lx'' \<and> text_of pascal = ''Pa'' \<and> text_of volt = ''V'' \<and>
   text_of ampere = ''A'' \<and> text_of meter_per_second = ''m/s'' \<and>
   (\<forall>u. meter_per_second < u \<longrightarrow> text_of u = [])"
proof -
  have "text_of u = []" if "meter_per_second < u" for u
  proof -
    have "6 < unat u"
      using that by (simp add: meter_per_second_def word_less_nat_alt)
    then show ?thesis
      by (simp add: text_of_def items_def)
  qed
  then show ?thesis
    by (simp add: text_of_def items_def celsius_def percent_def lux_def pascal_def volt_def
        ampere_def meter_per_second_def)
qed

theorem text_of_total_witness:
  "meter_per_second < (200 :: unit) \<and> text_of 200 = [] \<and> text_of lux = ''lx''"
proof -
  have "meter_per_second < (200 :: unit)"
    by (simp add: meter_per_second_def)
  then show ?thesis
    using text_of_total by blast
qed

text \<open>
  C9. The quantization bound holds up to the rounding of the floating-point
  operations. In every instantiation that compiles and whose resolution \<open>r\<close> and its
  reciprocal are normal numbers of the input type, for every finite \<open>v\<close> between the
  bounds the constructor stores an integer, and whenever the value recovered by
  \<^verbatim>\<open>value()\<close> is finite it differs from \<open>v\<close> by at most
  \<open>r / 2 + 3 * epsilon * (\<bar>v\<bar> + r)\<close>, with \<open>epsilon\<close> the machine epsilon.
\<close>

theorem quantization_bound_up_to_rounding:
  assumes wf: "well_formed t"
    and res: "resolution t = Finite r" "2 powi emin (input_type t) \<le> r"
      "r \<le> 2 powi (- emin (input_type t))"
    and rng: "fle (min_value t) (Finite x)" "fle (Finite x) (max_value t)"
  shows "\<exists>k w. base_init t (Finite x) = Some \<lparr>scaled_value = Some k\<rparr> \<and>
    value t \<lparr>scaled_value = Some k\<rparr> = Some w \<and>
    (\<forall>y. w = Finite y \<longrightarrow>
       \<bar>y - x\<bar> \<le> r / 2 + 3 * epsilon (input_type t) * (\<bar>x\<bar> + r))"
proof -
  define f where "f = input_type t"
  define u where "u = epsilon f / 2"
  have fpf: "floating_point f"
    using wf by (simp add: well_formed_def f_def)
  have u: "0 < u" "u \<le> 1 / 4"
    using epsilon_pos [of f] epsilon_le_half [OF fpf] by (simp_all add: u_def)
  have sub: "(2::rat) powi (emin f - int (precision f)) = 2 powi emin f * u"
    unfolding u_def by (rule subnormal_step)
  have r: "0 < r"
  proof -
    have "0 < (2::rat) powi emin (input_type t)" by simp
    then show ?thesis using res(2) by linarith
  qed
  obtain lo hi sf a b where t:
    "min_value t = Finite lo" "max_value t = Finite hi" "lo \<le> hi"
    "scale_factor t = Finite sf" "0 \<le> sf"
    "static_min_scaled_value t = Some a" "static_max_scaled_value t = Some b"
    using wf by (rule well_formedD)
  have x: "lo \<le> x" "x \<le> hi"
    using rng t by (simp_all add: fle_def)
  then have cl: "clamp (Finite x) (min_value t) (max_value t) = Finite x"
    by (simp add: clamp_def t)
  obtain k where k: "convert_to_scaled t (Finite x) = Some k"
    using convert_to_scaled_clamp [OF wf, of "Finite x"] cl by auto
  then obtain s where s: "rnd f (x * sf) = Finite s" "k = c_round s"
    using convert_to_scaled_Finite [OF t(4)] by (auto simp add: f_def)
  have init: "base_init t (Finite x) = Some \<lparr>scaled_value = Some k\<rparr>"
    by (simp add: base_init_def cl k)
  have val: "value t \<lparr>scaled_value = Some k\<rparr> = Some (convert_to_physical t k)"
    by (simp add: value_def)
  have "rnd f (1 / r) = Finite sf"
    using t(4) r by (simp add: scale_factor_def scale_numerator_1 fpf [unfolded f_def] res(1) f_def)
  then have sf: "sf = round_to f (1 / r)"
    by (simp add: rnd_eq_Finite)
  have "1 / (2::rat) powi (- emin f) \<le> 1 / r"
    using res(3) r by (intro divide_left_mono) (simp_all add: f_def)
  moreover have "1 / (2::rat) powi (- emin f) = 2 powi emin f"
    by (simp add: power_int_minus_divide)
  ultimately have "2 powi emin f \<le> \<bar>1 / r\<bar>"
    using r by simp
  then have "\<bar>sf - 1 / r\<bar> \<le> u * \<bar>1 / r\<bar>"
    unfolding sf u_def by (rule round_to_error_normal)
  then have sf_err: "\<bar>sf - 1 / r\<bar> \<le> u * (1 / r)"
    using r by simp
  have sf_pos: "0 < sf"
  proof -
    have "u * (1 / r) \<le> 1 / 4 * (1 / r)"
      using u r by (intro mult_right_mono) simp_all
    moreover have "0 < 1 / r" using r by simp
    ultimately show ?thesis using sf_err by linarith
  qed
  have e1: "\<bar>s - x * sf\<bar> \<le> u * \<bar>x * sf\<bar> + u"
  proof -
    have "s = round_to f (x * sf)"
      using s(1) by (simp add: rnd_eq_Finite)
    then have "\<bar>s - x * sf\<bar> \<le> u * \<bar>x * sf\<bar> + 2 powi emin f * u"
      using round_to_error_general [of f "x * sf"] by (simp add: sub u_def)
    moreover have "2 powi emin f * u \<le> 1 * u"
      using two_powi_emin_le_1 [OF fpf] u by (intro mult_right_mono) simp_all
    ultimately show ?thesis by linarith
  qed
  have e2: "\<bar>of_int k - s\<bar> \<le> 1 / 2"
    unfolding s(2) by (rule c_round_error)
  have bound: "\<bar>y - x\<bar> \<le> r / 2 + 3 * epsilon (input_type t) * (\<bar>x\<bar> + r)"
    if y: "convert_to_physical t k = Finite y" for y
  proof -
    obtain kf where kf: "rnd f (of_int k) = Finite kf"
      using y t(4) by (cases "rnd f (of_int k)")
        (simp_all add: convert_to_physical_def of_storage_def f_def)
    then have kf': "kf = round_to f (of_int k)"
      by (simp add: rnd_eq_Finite)
    have "rnd f (kf / sf) = Finite y"
      using y kf t(4) sf_pos by (simp add: convert_to_physical_def of_storage_def f_def)
    then have y': "y = round_to f (kf / sf)"
      by (simp add: rnd_eq_Finite)
    have e3: "\<bar>kf - of_int k\<bar> \<le> u * \<bar>of_int k\<bar>"
      unfolding kf' u_def using fpf by (rule round_to_int_error)
    have e4: "\<bar>y - kf / sf\<bar> \<le> u * \<bar>kf / sf\<bar> + u * r"
    proof -
      have "\<bar>y - kf / sf\<bar> \<le> u * \<bar>kf / sf\<bar> + 2 powi emin f * u"
        using round_to_error_general [of f "kf / sf"] by (simp add: sub u_def y')
      moreover have "2 powi emin f * u \<le> r * u"
        using res(2) u by (intro mult_right_mono) (simp_all add: f_def)
      ultimately show ?thesis by (simp add: mult.commute)
    qed
    have "\<bar>y - x\<bar> \<le> r / 2 + 6 * u * (\<bar>x\<bar> + r)"
      using u r sf_err e1 e2 e3 e4 by (rule quantization_error_analysis)
    then show ?thesis
      by (simp add: u_def f_def)
  qed
  show ?thesis
    using init val bound by blast
qed

theorem quantization_bound_up_to_rounding_witness:
  "well_formed temperature_traits \<and>
   resolution temperature_traits = Finite (13421773 / 134217728) \<and>
   2 powi emin (input_type temperature_traits) \<le> (13421773 / 134217728 :: rat) \<and>
   (13421773 / 134217728 :: rat) \<le> 2 powi (- emin (input_type temperature_traits)) \<and>
   fle (min_value temperature_traits) (Finite (1 / 4)) \<and>
   fle (Finite (1 / 4)) (max_value temperature_traits) \<and>
   value temperature_traits \<lparr>scaled_value = Some 3\<rparr> = Some (Finite (5033165 / 16777216)) \<and>
   \<bar>5033165 / 16777216 - 1 / 4 :: rat\<bar>
     \<le> (13421773 / 134217728) / 2
       + 3 * epsilon (input_type temperature_traits) * (\<bar>1 / 4\<bar> + 13421773 / 134217728)"
proof -
  have lo: "2 powi emin (input_type temperature_traits) \<le> (13421773 / 134217728 :: rat)"
    by code_simp
  have hi: "(13421773 / 134217728 :: rat) \<le> 2 powi (- emin (input_type temperature_traits))"
    by code_simp
  have rng: "fle (min_value temperature_traits) (Finite (1 / 4))"
    "fle (Finite (1 / 4)) (max_value temperature_traits)"
    by code_simp+
  have val: "value temperature_traits \<lparr>scaled_value = Some 3\<rparr>
      = Some (Finite (5033165 / 16777216))"
    by (simp add: value_def temperature_quarter)
  obtain k w where kw:
    "base_init temperature_traits (Finite (1 / 4)) = Some \<lparr>scaled_value = Some k\<rparr>"
    "value temperature_traits \<lparr>scaled_value = Some k\<rparr> = Some w"
    "\<forall>y. w = Finite y \<longrightarrow> \<bar>y - 1 / 4\<bar> \<le> (13421773 / 134217728) / 2
        + 3 * epsilon (input_type temperature_traits) * (\<bar>1 / 4\<bar> + 13421773 / 134217728)"
    using quantization_bound_up_to_rounding [OF temperature_well_formed temperature_resolution lo hi rng]
    by blast
  have "k = 3"
    using kw(1) by (simp add: temperature_quarter)
  then have "w = Finite (5033165 / 16777216)"
    using kw(2) val by simp
  then show ?thesis
    using kw(3) temperature_well_formed temperature_resolution lo hi rng val by blast
qed

text \<open>
  The bound \<open>r / 2\<close> itself fails: a temperature constructed from 0.25 stores 3
  (2.5 rounds away from zero) and \<^verbatim>\<open>value()\<close> is the \<^verbatim>\<open>float\<close> nearest to 0.3, which is
  further from 0.25 than half the resolution, be it half the \<^verbatim>\<open>float\<close> 0.1f or 0.05.
\<close>

theorem quantization_bound_counterexample:
  "well_formed temperature_traits \<and>
   min_value temperature_traits = Finite (- 50) \<and> max_value temperature_traits = Finite 50 \<and>
   resolution temperature_traits = Finite (13421773 / 134217728) \<and>
   base_init temperature_traits (Finite (1 / 4)) = Some \<lparr>scaled_value = Some 3\<rparr> \<and>
   value temperature_traits \<lparr>scaled_value = Some 3\<rparr> = Some (Finite (5033165 / 16777216)) \<and>
   \<not> \<bar>5033165 / 16777216 - 1 / 4 :: rat\<bar> \<le> (13421773 / 134217728) / 2 \<and>
   \<not> \<bar>5033165 / 16777216 - 1 / 4 :: rat\<bar> \<le> (1 / 10) / 2"
proof -
  have "min_value temperature_traits = Finite (- 50)" "max_value temperature_traits = Finite 50"
    by code_simp+
  moreover have "value temperature_traits \<lparr>scaled_value = Some 3\<rparr>
      = Some (Finite (5033165 / 16777216))"
    by (simp add: value_def temperature_quarter)
  moreover have "\<not> \<bar>5033165 / 16777216 - 1 / 4 :: rat\<bar> \<le> (13421773 / 134217728) / 2"
    "\<not> \<bar>5033165 / 16777216 - 1 / 4 :: rat\<bar> \<le> (1 / 10) / 2"
    by simp_all
  ultimately show ?thesis
    using temperature_well_formed temperature_resolution temperature_quarter(1) by blast
qed

text \<open>
  C10. For the light intensity sensor the scaled range is the whole range of the
  storage type, 0 to 65535, so \<^verbatim>\<open>set_raw_scaled_value\<close> stores every 16-bit unsigned
  raw value and returns true.
\<close>

theorem light_intensity_accepts_every_raw:
  fixes raw :: "16 word"
  shows "storage_type light_intensity_traits = uint16_t \<and>
    static_min_scaled_value light_intensity_traits = Some (lowest uint16_t) \<and>
    static_max_scaled_value light_intensity_traits = Some (highest uint16_t) \<and>
    lowest uint16_t = 0 \<and> highest uint16_t = 65535 \<and>
    set_raw_scaled_value light_intensity_traits (uint raw) b
      = Some (True, \<lparr>scaled_value = Some (uint raw)\<rparr>)"
proof -
  have range: "lowest uint16_t = 0" "highest uint16_t = 65535"
    by (simp_all add: lowest_def highest_def uint16_t_def)
  have "0 \<le> uint raw" "uint raw \<le> 65535"
    using uint_lt2p [of raw] by simp_all
  then have "set_raw_scaled_value light_intensity_traits (uint raw) b
      = Some (True, \<lparr>scaled_value = Some (uint raw)\<rparr>)"
    by (simp add: set_raw_scaled_value_def light_intensity_static_min light_intensity_static_max)
  moreover have "storage_type light_intensity_traits = uint16_t"
    by (simp add: light_intensity_traits_def)
  ultimately show ?thesis
    by (simp add: range light_intensity_static_min light_intensity_static_max)
qed

end
